theory Spec2Isabelle
  imports Main
begin

section \<open>The kernel module \<^verbatim>\<open>srf05.c\<close>: the rangefinder driver\<close>

text \<open>
  The module keeps two globals, \<^verbatim>\<open>distance\<close> (\<^verbatim>\<open>unsigned long\<close>) and
  \<^verbatim>\<open>status\<close> (\<^verbatim>\<open>int\<close>, 0 for OPERATIONAL and 1 for ERROR). The only writer of
  \<^verbatim>\<open>distance\<close> is \<^verbatim>\<open>measure\<close>, which stores a loop counter below
  \<^verbatim>\<open>MEASURE_XMIT_TIMEOUT\<close>; the counter never comes near the range of
  \<^verbatim>\<open>unsigned long\<close>, so it is a \<open>nat\<close> here (see \<open>poll_bound\<close>).
\<close>

record sensor =
  distance :: nat
  status :: int

definition MEASURE_START_TIMEOUT :: nat where
  "MEASURE_START_TIMEOUT = 25000"

definition MEASURE_XMIT_TIMEOUT :: nat where
  "MEASURE_XMIT_TIMEOUT = 100000"

text \<open>
  The sensor's answer is the sequence of values that successive calls of
  \<^verbatim>\<open>gpio_get_value\<close> return: \<open>gpio k\<close> is the value of the \<open>k\<close>-th call after the
  trigger pulse.

  \<^verbatim>\<open>while(gpio_get_value(srf05_gpio) == v && t < lim) t++;\<close>
  The line is read before the counter is compared, so every test of the loop condition uses
  up one read, also the test that leaves the loop. \<open>poll\<close> returns the counter and the index
  of the next read.
\<close>

function poll :: "(nat \<Rightarrow> int) \<Rightarrow> int \<Rightarrow> nat \<Rightarrow> nat \<Rightarrow> nat \<Rightarrow> nat \<times> nat" where
  "poll gpio v lim k t =
     (if gpio k = v \<and> t < lim then poll gpio v lim (Suc k) (Suc t) else (t, Suc k))"
  by pat_completeness auto
termination
  by (relation "measure (\<lambda>(gpio, v, lim, k, t). lim - t)") auto

declare poll.simps [simp del]

definition measure_dist :: "(nat \<Rightarrow> int) \<Rightarrow> sensor \<Rightarrow> sensor" where
  "measure_dist gpio s =
     (let (t, k) = poll gpio 0 MEASURE_START_TIMEOUT 0 0 in
      if t \<ge> MEASURE_START_TIMEOUT then s\<lparr>status := 1\<rparr>
      else
        let (t', k') = poll gpio 1 MEASURE_XMIT_TIMEOUT k 0 in
        if t' \<ge> MEASURE_XMIT_TIMEOUT then s\<lparr>status := 1\<rparr>
        else s\<lparr>status := 0, distance := t'\<rparr>)"

text \<open>
  The sysfs attributes print the two globals. \<^verbatim>\<open>distance / srf05_cmdiv\<close> divides an
  \<^verbatim>\<open>unsigned long\<close> by an \<^verbatim>\<open>int\<close> module parameter: the divisor is converted to
  \<^verbatim>\<open>unsigned long\<close> first (\<open>w\<close> is its width in bits), and a zero divisor is a division
  fault in the kernel.
\<close>

datatype fault =
  OutOfBounds int  \<comment> \<open>an array is read or written at this index, outside its bounds\<close>
  | Uninitialised  \<comment> \<open>a buffer is read that nothing has written\<close>
  | Unterminated   \<comment> \<open>a buffer without terminator is read as a string\<close>
  | NullStream     \<comment> \<open>a \<^verbatim>\<open>NULL\<close> stream is passed to \<^verbatim>\<open>fprintf\<close> or \<^verbatim>\<open>fclose\<close>\<close>
  | Overflow       \<comment> \<open>\<^verbatim>\<open>atol\<close> on a number outside the range of \<^verbatim>\<open>long\<close>\<close>
  | DivByZero

definition digit_char :: "nat \<Rightarrow> char" where
  "digit_char d = ''0123456789'' ! d"

text \<open>\<^verbatim>\<open>%lu\<close>: the decimal digits of an unsigned number.\<close>

fun dec :: "nat \<Rightarrow> string" where
  "dec n = (if n < 10 then [digit_char n] else dec (n div 10) @ [digit_char (n mod 10)])"

declare dec.simps [simp del]

text \<open>\<^verbatim>\<open>%ld\<close> and \<^verbatim>\<open>%d\<close>: a minus sign for a negative number, then its digits.\<close>

definition fmt_d :: "int \<Rightarrow> string" where
  "fmt_d i = (if i < 0 then ''-'' else []) @ dec (nat \<bar>i\<bar>)"

text \<open>\<^verbatim>\<open>%0wd\<close>: zeros between the sign and the digits fill the field up to \<open>w\<close> characters.\<close>

definition fmt_0d :: "nat \<Rightarrow> int \<Rightarrow> string" where
  "fmt_0d w i =
     (let sign = (if i < 0 then ''-'' else []); body = dec (nat \<bar>i\<bar>)
      in sign @ replicate (w - length sign - length body) CHR ''0'' @ body)"

definition sysfs_distance_raw_show :: "sensor \<Rightarrow> string" where
  "sysfs_distance_raw_show s = dec (distance s) @ ''\<newline>''"

definition sysfs_distance_cm_show :: "nat \<Rightarrow> int \<Rightarrow> sensor \<Rightarrow> fault + string" where
  "sysfs_distance_cm_show w srf05_cmdiv s =
     (let d = nat (srf05_cmdiv mod 2 ^ w)
      in if d = 0 then Inl DivByZero else Inr (dec (distance s div d) @ ''\<newline>''))"

definition sysfs_status_show :: "sensor \<Rightarrow> string" where
  "sysfs_status_show s = (if status s = 1 then ''ERROR'' else ''OPERATIONAL'') @ ''\<newline>''"

section \<open>The web service \<^verbatim>\<open>srf05web.c\<close>\<close>

subsection \<open>The C library calls it makes\<close>

text \<open>
  What the program cannot know at compile time is a parameter: the width of \<^verbatim>\<open>long\<close> and
  the time zone rule of \<^verbatim>\<open>localtime\<close>. \<^verbatim>\<open>localtime\<close> is taken to succeed on the time
  stamps that \<^verbatim>\<open>time\<close> has returned.
\<close>

record tm =
  tm_sec :: int
  tm_min :: int
  tm_hour :: int
  tm_mday :: int
  tm_mon :: int
  tm_year :: int

record platform =
  long_bits :: nat
  localtime :: "int \<Rightarrow> tm"

text \<open>
  A read of a sysfs file: \<open>None\<close> when \<^verbatim>\<open>fopen\<close> returns \<^verbatim>\<open>NULL\<close>, otherwise what the
  file holds at that moment.
\<close>

type_synonym sysfs = "string \<Rightarrow> string option"

text \<open>
  \<^verbatim>\<open>fgets(buf, n, file)\<close> on a freshly opened file: at most \<open>n - 1\<close> characters, up to and
  with the first newline. At the end of the file nothing is stored and the call returns
  \<^verbatim>\<open>NULL\<close> (\<open>None\<close>).
\<close>

fun upto_newline :: "string \<Rightarrow> string" where
  "upto_newline [] = []"
| "upto_newline (c # cs) = (if c = CHR ''\<newline>'' then [c] else c # upto_newline cs)"

definition fgets :: "nat \<Rightarrow> string \<Rightarrow> string option" where
  "fgets n content = (if content = [] then None else Some (take (n - 1) (upto_newline content)))"

text \<open>The string that a buffer holds ends before the first NUL character.\<close>

definition cstr :: "string \<Rightarrow> string" where
  "cstr buf = takeWhile (\<lambda>c. c \<noteq> CHR 0x00) buf"

definition isspace :: "char \<Rightarrow> bool" where
  "isspace c = (c \<in> set [CHR '' '', CHR 0x09, CHR 0x0A, CHR 0x0B, CHR 0x0C, CHR 0x0D])"

definition isdigit :: "char \<Rightarrow> bool" where
  "isdigit c = (c \<in> set ''0123456789'')"

definition digit_val :: "char \<Rightarrow> nat" where
  "digit_val c = of_char c - 48"

fun atol_digits :: "nat \<Rightarrow> string \<Rightarrow> nat" where
  "atol_digits acc [] = acc"
| "atol_digits acc (c # cs) =
     (if isdigit c then atol_digits (10 * acc + digit_val c) cs else acc)"

text \<open>
  \<^verbatim>\<open>atol\<close>: white space, an optional sign, then digits up to the first other character.
  A value outside the range of \<^verbatim>\<open>long\<close> (\<open>w\<close> bits) is undefined behaviour.
\<close>

definition atol :: "nat \<Rightarrow> string \<Rightarrow> fault + int" where
  "atol w s =
     (let s1 = dropWhile isspace s;
          neg = (s1 \<noteq> [] \<and> hd s1 = CHR ''-'');
          s2 = (if s1 \<noteq> [] \<and> (hd s1 = CHR ''-'' \<or> hd s1 = CHR ''+'') then tl s1 else s1);
          n = int (atol_digits 0 s2);
          v = (if neg then - n else n)
      in if - (2 ^ (w - 1)) \<le> v \<and> v < 2 ^ (w - 1) then Inr v else Inl Overflow)"

subsection \<open>Reading the sensor through sysfs\<close>

definition DATA_FILE_PREFIX :: string where
  "DATA_FILE_PREFIX = ''/sys/kernel/srf05/distance_''"

definition STATUS_FILE :: string where
  "STATUS_FILE = ''/sys/kernel/srf05/status''"

text \<open>
  \<^verbatim>\<open>srf05_read_distance\<close>: the buffer starts as \<^verbatim>\<open>"-1"\<close> and keeps that value when
  \<^verbatim>\<open>fgets\<close> stores nothing.
\<close>

definition srf05_read_distance :: "platform \<Rightarrow> sysfs \<Rightarrow> string \<Rightarrow> fault + int" where
  "srf05_read_distance pf fs unit =
     (case fs (take 127 (DATA_FILE_PREFIX @ unit)) of
        None \<Rightarrow> Inr (- 1)
      | Some content \<Rightarrow>
          atol (long_bits pf)
            (case fgets 32 content of None \<Rightarrow> ''-1'' | Some line \<Rightarrow> cstr line))"

text \<open>
  \<^verbatim>\<open>srf05_read_status(status, len)\<close>; both callers pass an uninitialised buffer of 32
  characters. \<^verbatim>\<open>strncpy\<close> leaves the buffer without terminator when \<open>len\<close> is not more than
  the seven characters of \<^verbatim>\<open>"UNKNOWN"\<close>. After \<^verbatim>\<open>fgets\<close> the character at index
  \<^verbatim>\<open>strlen(status) - 1\<close> is overwritten with the terminator, which cuts the string there;
  \<open>status_cut_index\<close> is that index.
\<close>

definition status_cut_index :: "string \<Rightarrow> int" where
  "status_cut_index s = int (length s) - 1"

definition srf05_read_status :: "sysfs \<Rightarrow> nat \<Rightarrow> fault + string" where
  "srf05_read_status fs len =
     (case fs STATUS_FILE of
        None \<Rightarrow> if 7 < len then Inr ''UNKNOWN'' else Inl Unterminated
      | Some content \<Rightarrow>
          (case fgets len content of
             None \<Rightarrow> Inl Uninitialised
           | Some line \<Rightarrow>
               let s = cstr line; i = status_cut_index s
               in if i < 0 \<or> int len \<le> i then Inl (OutOfBounds i) else Inr (take (nat i) s)))"

subsection \<open>The in-memory history\<close>

record history_entry =
  ts :: int
  dcm :: int
  draw :: int
  stat :: int

text \<open>
  The array has \<^verbatim>\<open>MAX_HISTORY\<close> entries; here its length is the length of the list, and
  the static initialiser is \<open>history_init MAX_HISTORY\<close>. The \<^verbatim>\<open>int\<close> fields are integers
  without wrap-around: \<^verbatim>\<open>count\<close> and \<^verbatim>\<open>curr\<close> only grow up to \<^verbatim>\<open>size\<close>.
\<close>

record history_table =
  entries :: "history_entry list"
  size_h :: int
  curr :: int
  count :: int

definition MAX_HISTORY :: nat where
  "MAX_HISTORY = 48"

definition history_init :: "nat \<Rightarrow> history_table" where
  "history_init n =
     \<lparr>entries = replicate n \<lparr>ts = 0, dcm = 0, draw = 0, stat = 0\<rparr>,
      size_h = int n, curr = - 1, count = 0\<rparr>"

definition history :: history_table where
  "history = history_init MAX_HISTORY"

text \<open>One firing of the main loop sees the clock and the sysfs files of that moment.\<close>

record tick =
  now :: int
  sysfs :: sysfs

definition bind_res :: "fault + 'a \<Rightarrow> ('a \<Rightarrow> fault + 'b) \<Rightarrow> fault + 'b" where
  "bind_res r f = (case r of Inl e \<Rightarrow> Inl e | Inr x \<Rightarrow> f x)"

text \<open>
  \<^verbatim>\<open>add_history\<close> in two parts: \<open>read_entry\<close> is what lines 219 to 229 store into the
  fields of \<^verbatim>\<open>history.entries[pos]\<close>, the rest is the bookkeeping of the ring.
\<close>

definition read_entry :: "platform \<Rightarrow> tick \<Rightarrow> fault + history_entry" where
  "read_entry pf tk =
     bind_res (srf05_read_distance pf (sysfs tk) ''cm'') (\<lambda>cm.
     bind_res (srf05_read_distance pf (sysfs tk) ''raw'') (\<lambda>raw.
     bind_res (srf05_read_status (sysfs tk) 32) (\<lambda>status.
       Inr \<lparr>ts = now tk, dcm = cm, draw = raw,
            stat = (if status = ''OPERATIONAL'' then 1 else 0)\<rparr>)))"

definition add_history :: "platform \<Rightarrow> tick \<Rightarrow> history_table \<Rightarrow> fault + history_table" where
  "add_history pf tk h =
     (let wrap = (size_h h \<le> curr h + 1);
          pos = (if wrap then 0 else curr h + 1);
          h1 = (if wrap then h\<lparr>curr := - 1\<rparr> else h);
          h2 = (if count h1 < size_h h1 then h1\<lparr>count := count h1 + 1\<rparr> else h1)
      in if pos < 0 \<or> int (length (entries h2)) \<le> pos then Inl (OutOfBounds pos)
         else
           bind_res (read_entry pf tk) (\<lambda>e.
             Inr (h2\<lparr>entries := (entries h2)[nat pos := e], curr := curr h2 + 1\<rparr>)))"

text \<open>The main loop calls \<^verbatim>\<open>add_history\<close> once per interval.\<close>

fun add_all :: "platform \<Rightarrow> tick list \<Rightarrow> history_table \<Rightarrow> fault + history_table" where
  "add_all pf [] h = Inr h"
| "add_all pf (tk # tks) h = bind_res (add_history pf tk h) (add_all pf tks)"

subsection \<open>The history file\<close>

text \<open>
  A path of the disk cannot be opened for appending (\<open>NoAccess\<close>: the directory is missing,
  the permissions forbid it), or names no file yet (\<open>Absent\<close>; mode \<^verbatim>\<open>"a+"\<close> creates it), or
  names a file with some content. The program's world is the disk and what it has printed.
\<close>

datatype file_state = NoAccess | Absent | Present string

record world =
  disk :: "string \<Rightarrow> file_state"
  stdout :: string

definition fopen_append :: "(string \<Rightarrow> file_state) \<Rightarrow> string \<Rightarrow> string option" where
  "fopen_append d name =
     (case d name of NoAccess \<Rightarrow> None | Absent \<Rightarrow> Some [] | Present c \<Rightarrow> Some c)"

definition HISTORY_FILE_PATH :: string where
  "HISTORY_FILE_PATH = ''/opt/app/html/history''"

definition stat_label :: "int \<Rightarrow> string" where
  "stat_label st = (if st = 0 then ''ERROR'' else ''OPERATIONAL'')"

definition history_file_name :: "tm \<Rightarrow> string" where
  "history_file_name lt =
     take 255 (HISTORY_FILE_PATH @ ''/'' @ fmt_0d 4 (tm_year lt + 1900) @ ''-'' @
       fmt_0d 2 (tm_mon lt + 1) @ ''-'' @ fmt_0d 2 (tm_mday lt) @ ''.csv'')"

definition csv_line :: "tm \<Rightarrow> history_entry \<Rightarrow> string" where
  "csv_line lt e =
     ''\"'' @ fmt_0d 4 (tm_year lt + 1900) @ ''-'' @ fmt_0d 2 (tm_mon lt + 1) @ ''-'' @
       fmt_0d 2 (tm_mday lt) @ ''\",\"'' @
     fmt_0d 2 (tm_hour lt) @ '':'' @ fmt_0d 2 (tm_min lt) @ '':'' @ fmt_0d 2 (tm_sec lt) @
     ''\",\"'' @ stat_label (stat e) @ ''\",'' @ fmt_d (dcm e) @ '','' @ fmt_d (draw e) @
     ''\<newline>''"

text \<open>
  \<^verbatim>\<open>dump_history\<close> returns the world it leaves and, when it does not return, the fault that
  stopped it. After a failed \<^verbatim>\<open>fopen\<close> the message is printed and the function goes on to
  \<^verbatim>\<open>fprintf(file, ...)\<close> and \<^verbatim>\<open>fclose(file)\<close> with \<^verbatim>\<open>file == NULL\<close>.
\<close>

definition dump_history :: "platform \<Rightarrow> history_table \<Rightarrow> world \<Rightarrow> fault option \<times> world" where
  "dump_history pf h w =
     (let pos = curr h
      in if pos < 0 \<or> int (length (entries h)) \<le> pos then (Some (OutOfBounds pos), w)
         else
           let e = entries h ! nat pos;
               lt = localtime pf (ts e);
               file_name = history_file_name lt
           in case fopen_append (disk w) file_name of
                None \<Rightarrow>
                  (Some NullStream,
                   w\<lparr>stdout := stdout w @ ''ERROR: unable to open history file '' @
                        file_name @ ''\<newline>''\<rparr>)
              | Some old \<Rightarrow>
                  (None, w\<lparr>disk := (disk w)(file_name := Present (old @ csv_line lt e))\<rparr>))"

subsection \<open>The request handler\<close>

definition latest_content :: "int \<Rightarrow> int \<Rightarrow> string \<Rightarrow> string" where
  "latest_content raw cm st =
     ''{\"distance_raw\" : '' @ fmt_d raw @ '', \"distance_cm\" : '' @ fmt_d cm @
     '', \"status\" : \"'' @ st @ ''\"}''"

text \<open>\<^verbatim>\<open>snprintf(histline, sizeof(histline), ...)\<close> keeps at most 127 characters.\<close>

definition histline :: "platform \<Rightarrow> bool \<Rightarrow> history_entry \<Rightarrow> string" where
  "histline pf first e =
     (let lt = localtime pf (ts e)
      in take 127
           ((if first then [] else '', '') @
            ''{\"date\" : \"'' @ fmt_0d 4 (tm_year lt + 1900) @ ''-'' @
              fmt_0d 2 (tm_mon lt + 1) @ ''-'' @ fmt_0d 2 (tm_mday lt) @
            ''\", \"time\" : \"'' @ fmt_0d 2 (tm_hour lt) @ '':'' @ fmt_0d 2 (tm_min lt) @
              '':'' @ fmt_0d 2 (tm_sec lt) @
            ''\", \"distance_raw\" : '' @ fmt_d (draw e) @
            '', \"distance_cm\" : '' @ fmt_d (dcm e) @
            '', \"status\" : \"'' @ stat_label (stat e) @ ''\"}''))"

text \<open>
  \<^verbatim>\<open>strcat\<close> into a buffer of \<open>cap\<close> characters: the result and its terminator must fit.
\<close>

definition strcat :: "nat \<Rightarrow> string \<Rightarrow> string \<Rightarrow> fault + string" where
  "strcat cap dst src =
     (if length dst + length src < cap then Inr (dst @ src) else Inl (OutOfBounds (int cap)))"

text \<open>
  The \<^verbatim>\<open>for\<close> loop of the history branch, \<open>n\<close> iterations to go: it appends the line of
  \<^verbatim>\<open>history.entries[pos]\<close> and steps \<open>pos\<close> back, to \<^verbatim>\<open>history.size - 1\<close> below 0.
\<close>

fun history_loop ::
  "platform \<Rightarrow> history_table \<Rightarrow> nat \<Rightarrow> nat \<Rightarrow> int \<Rightarrow> bool \<Rightarrow> string \<Rightarrow> fault + string" where
  "history_loop pf h cap 0 pos first content = Inr content"
| "history_loop pf h cap (Suc n) pos first content =
     (if pos < 0 \<or> int (length (entries h)) \<le> pos then Inl (OutOfBounds pos)
      else
        bind_res (strcat cap content (histline pf first (entries h ! nat pos))) (\<lambda>content'.
          history_loop pf h cap n (if pos - 1 < 0 then size_h h - 1 else pos - 1) False content'))"

text \<open>
  The content of the reply and its \<^verbatim>\<open>content_length\<close>; \<open>None\<close> for a URI the handler does
  not serve. The buffer \<^verbatim>\<open>content\<close> has \<^verbatim>\<open>MAX_HISTORY * 128\<close> characters. C does not fix
  the order in which the three reads in the argument list of \<^verbatim>\<open>snprintf\<close> happen; a read
  changes nothing, so the order only decides which fault is met first.
\<close>

definition handler_content ::
  "platform \<Rightarrow> sysfs \<Rightarrow> history_table \<Rightarrow> string \<Rightarrow> fault + (int \<times> string) option" where
  "handler_content pf fs h uri =
     (let cap = length (entries h) * 128
      in if uri = ''/sensor/srf05'' then
           bind_res (srf05_read_distance pf fs ''raw'') (\<lambda>raw.
           bind_res (srf05_read_distance pf fs ''cm'') (\<lambda>cm.
           bind_res (srf05_read_status fs 32) (\<lambda>status.
             let full = latest_content raw cm status
             in Inr (Some (int (length full), take (cap - 1) full)))))
         else if uri = ''/sensor/srf05/history'' then
           bind_res (strcat cap [] ''{ \"history\" : [ '') (\<lambda>c0.
           bind_res (history_loop pf h cap (nat (count h)) (curr h) True c0) (\<lambda>c1.
           bind_res (strcat cap c1 ''] }'') (\<lambda>c2.
             Inr (Some (int (length c2), c2)))))
         else Inr None)"

definition crlf :: string where
  "crlf = [CHR 0x0D, CHR 0x0A]"

definition http_reply :: "int \<Rightarrow> string \<Rightarrow> string" where
  "http_reply content_length content =
     ''HTTP/1.1 200 OK'' @ crlf @ ''Content-Type: text/plain'' @ crlf @
     ''Content-Length: '' @ fmt_d content_length @ crlf @ crlf @ content"

text \<open>
  \<^verbatim>\<open>begin_request_handler\<close> returns 1 after it has sent a reply (\<open>Some\<close> of the reply),
  and 0 without sending anything (\<open>None\<close>).
\<close>

definition begin_request_handler ::
  "platform \<Rightarrow> sysfs \<Rightarrow> history_table \<Rightarrow> string \<Rightarrow> fault + (int \<times> string option)" where
  "begin_request_handler pf fs h uri =
     bind_res (handler_content pf fs h uri) (\<lambda>r.
       case r of
         None \<Rightarrow> Inr (0, None)
       | Some (content_length, content) \<Rightarrow> Inr (1, Some (http_reply content_length content)))"

text \<open>
  The entries that the loop of the history branch visits, in the order of the visit: the
  same walk over the indices as \<open>history_loop\<close>, without the text (see
  \<open>history_loop_walk\<close>). This is the newest-first snapshot of the history.
\<close>

fun walk :: "history_table \<Rightarrow> nat \<Rightarrow> int \<Rightarrow> fault + history_entry list" where
  "walk h 0 pos = Inr []"
| "walk h (Suc n) pos =
     (if pos < 0 \<or> int (length (entries h)) \<le> pos then Inl (OutOfBounds pos)
      else
        bind_res (walk h n (if pos - 1 < 0 then size_h h - 1 else pos - 1)) (\<lambda>es.
          Inr (entries h ! nat pos # es)))"

definition snapshot_newest_first :: "history_table \<Rightarrow> fault + history_entry list" where
  "snapshot_newest_first h = walk h (nat (count h)) (curr h)"

text \<open>The lines of a list of entries: the first without separator, the others with it.\<close>

fun history_lines :: "platform \<Rightarrow> bool \<Rightarrow> history_entry list \<Rightarrow> string" where
  "history_lines pf first [] = []"
| "history_lines pf first (e # es) = histline pf first e @ history_lines pf False es"

text \<open>
  Insignificant white space of a JSON text is the white space outside its strings;
  \<open>json_strip\<close> removes it (\<open>ins\<close>: inside a string), so that two texts with the same
  result are the same JSON document.
\<close>

definition json_ws :: "char \<Rightarrow> bool" where
  "json_ws c = (c \<in> set [CHR '' '', CHR 0x09, CHR 0x0A, CHR 0x0D])"

fun json_strip :: "bool \<Rightarrow> string \<Rightarrow> string" where
  "json_strip ins [] = []"
| "json_strip ins [c] = (if \<not> ins \<and> json_ws c then [] else [c])"
| "json_strip ins (c # d # cs) =
     (if ins then
        (if c = CHR 0x5C then c # d # json_strip True cs
         else c # json_strip (c \<noteq> CHR 0x22) (d # cs))
      else if c = CHR 0x22 then c # json_strip True (d # cs)
      else if json_ws c then json_strip False (d # cs)
      else c # json_strip False (d # cs))"

subsection \<open>The invariant of the ring\<close>

text \<open>
  After the readings \<open>es\<close> have been appended to a ring of \<open>N\<close> slots, the \<open>i\<close>-th newest
  of them is in slot \<open>(length es - 1 - i) mod N\<close>, for every \<open>i\<close> that the ring still holds.
\<close>

definition ring_inv :: "nat \<Rightarrow> history_entry list \<Rightarrow> history_table \<Rightarrow> bool" where
  "ring_inv N es h \<longleftrightarrow>
     size_h h = int N \<and> length (entries h) = N \<and> count h = int (min (length es) N) \<and>
     curr h = (if es = [] then - 1 else int ((length es - 1) mod N)) \<and>
     (\<forall>i < min (length es) N. entries h ! ((length es - 1 - i) mod N) = rev es ! i)"

subsection \<open>The bridge between the two programs\<close>

text \<open>
  What a reader of the three sysfs files sees while the module is in the state \<open>s\<close>. A read
  of \<^verbatim>\<open>distance_cm\<close> fails when the divisor is zero.
\<close>

definition published :: "nat \<Rightarrow> int \<Rightarrow> sensor \<Rightarrow> sysfs" where
  "published w srf05_cmdiv s path =
     (if path = DATA_FILE_PREFIX @ ''raw'' then Some (sysfs_distance_raw_show s)
      else if path = DATA_FILE_PREFIX @ ''cm'' then
        (case sysfs_distance_cm_show w srf05_cmdiv s of Inl f \<Rightarrow> None | Inr text \<Rightarrow> Some text)
      else if path = STATUS_FILE then Some (sysfs_status_show s)
      else None)"

text \<open>
  The division of C on \<^verbatim>\<open>long\<close>: the quotient is truncated towards zero.
\<close>

definition c_div :: "int \<Rightarrow> int \<Rightarrow> int" where
  "c_div a b = sgn a * sgn b * (\<bar>a\<bar> div \<bar>b\<bar>)"

subsection \<open>Concrete inputs\<close>

text \<open>
  \<^verbatim>\<open>localtime\<close> in the time zone UTC for the time stamps of 1 December 2012, which starts
  at 1354320000; a platform with 32 bits in a \<^verbatim>\<open>long\<close>; the tick at time \<open>t\<close> of a
  module with the default divisor 450 that holds the raw distance \<open>raw\<close>.
\<close>

definition utc_2012_12_01 :: "int \<Rightarrow> tm" where
  "utc_2012_12_01 t =
     \<lparr>tm_sec = t mod 60, tm_min = t div 60 mod 60, tm_hour = t div 3600 mod 24,
      tm_mday = 1, tm_mon = 11, tm_year = 112\<rparr>"

definition demo_platform :: platform where
  "demo_platform = \<lparr>long_bits = 32, localtime = utc_2012_12_01\<rparr>"

definition demo_tick :: "int \<Rightarrow> nat \<Rightarrow> tick" where
  "demo_tick t raw = \<lparr>now = t, sysfs = published 32 450 \<lparr>distance = raw, status = 0\<rparr>\<rparr>"

text \<open>
  A measurement between two reads: \<^verbatim>\<open>distance_cm\<close> is read while the module holds the
  distance 450, the other files after \<^verbatim>\<open>measure\<close> has stored 900.
\<close>

definition torn_sysfs :: sysfs where
  "torn_sysfs path =
     (if path = DATA_FILE_PREFIX @ ''cm'' then
        published 32 450 \<lparr>distance = 450, status = 0\<rparr> path
      else published 32 450 \<lparr>distance = 900, status = 0\<rparr> path)"

text \<open>
  The history after the first firing of the main loop at 01:04:05 with the raw distance 900,
  and after a second firing one hour later; a disk without files, and a disk on which nothing
  can be opened.
\<close>

definition demo_history :: history_table where
  "demo_history =
     history\<lparr>entries := (entries history)[0 := \<lparr>ts = 1354323845, dcm = 2, draw = 900, stat = 1\<rparr>],
       curr := 0, count := 1\<rparr>"

definition demo_history2 :: history_table where
  "demo_history2 =
     demo_history\<lparr>entries := (entries demo_history)[1 := \<lparr>ts = 1354327445, dcm = 0, draw = 40, stat = 0\<rparr>],
       curr := 1, count := 2\<rparr>"

definition empty_disk :: world where
  "empty_disk = \<lparr>disk = (\<lambda>path. Absent), stdout = []\<rparr>"

definition no_disk :: world where
  "no_disk = \<lparr>disk = (\<lambda>path. NoAccess), stdout = []\<rparr>"

text \<open>
  \<^verbatim>\<open>localtime\<close> in the time zone UTC for the time stamps of 1 January 10000, which starts
  at 253402300800, on a platform with 64 bits in a \<^verbatim>\<open>long\<close>, and the history after a first
  firing of the main loop at that moment.
\<close>

definition utc_10000_01_01 :: "int \<Rightarrow> tm" where
  "utc_10000_01_01 t =
     \<lparr>tm_sec = t mod 60, tm_min = t div 60 mod 60, tm_hour = t div 3600 mod 24,
      tm_mday = 1, tm_mon = 0, tm_year = 8100\<rparr>"

definition far_platform :: platform where
  "far_platform = \<lparr>long_bits = 64, localtime = utc_10000_01_01\<rparr>"

definition far_history :: history_table where
  "far_history =
     history\<lparr>entries := (entries history)[0 := \<lparr>ts = 253402300800, dcm = 2, draw = 900, stat = 1\<rparr>],
       curr := 0, count := 1\<rparr>"




section \<open>Properties of the driver\<close>

lemma poll_bound: "t \<le> lim \<Longrightarrow> fst (poll gpio v lim k t) \<le> lim"
  by (induction gpio v lim k t rule: poll.induct) (subst poll.simps, auto)

lemma poll_all:
  "\<forall>i<n. gpio (k + i) = v \<Longrightarrow> t + n \<le> lim \<Longrightarrow>
   poll gpio v lim k t = poll gpio v lim (k + n) (t + n)"
proof (induction n arbitrary: k t)
  case 0
  then show ?case by simp
next
  case (Suc n)
  have here: "gpio k = v" using Suc.prems(1) by (metis add.right_neutral zero_less_Suc)
  have rest: "\<forall>i<n. gpio (Suc k + i) = v"
    using Suc.prems(1) by (metis Suc_less_eq add_Suc_shift)
  have "poll gpio v lim k t = poll gpio v lim (Suc k) (Suc t)"
    using here Suc.prems(2) by (subst poll.simps) simp
  also have "\<dots> = poll gpio v lim (Suc k + n) (Suc t + n)"
    using Suc.IH [OF rest] Suc.prems(2) by simp
  finally show ?case by simp
qed

lemma poll_timeout:
  assumes "\<forall>i<lim. gpio (k + i) = v"
  shows "poll gpio v lim k 0 = (lim, Suc (k + lim))"
proof -
  have "poll gpio v lim k 0 = poll gpio v lim (k + lim) (0 + lim)"
    using assms by (intro poll_all) auto
  also have "\<dots> = (lim, Suc (k + lim))"
    by (subst poll.simps) simp
  finally show ?thesis .
qed

lemma poll_change:
  assumes "\<forall>i<m. gpio (k + i) = v" and "gpio (k + m) \<noteq> v" and "m \<le> lim"
  shows "poll gpio v lim k 0 = (m, Suc (k + m))"
proof -
  have "poll gpio v lim k 0 = poll gpio v lim (k + m) (0 + m)"
    using assms by (intro poll_all) auto
  also have "\<dots> = (m, Suc (k + m))"
    using assms(2) by (subst poll.simps) simp
  finally show ?thesis .
qed

lemma first_change:
  fixes f :: "nat \<Rightarrow> int"
  assumes "\<exists>i<n. f i \<noteq> v"
  shows "\<exists>m<n. (\<forall>i<m. f i = v) \<and> f m \<noteq> v"
proof -
  define m where "m = (LEAST i. f i \<noteq> v)"
  from assms obtain i where i: "i < n" "f i \<noteq> v" by blast
  have a: "f m \<noteq> v" unfolding m_def using LeastI [of "\<lambda>i. f i \<noteq> v" i] i(2) by simp
  have "m \<le> i" unfolding m_def using Least_le [of "\<lambda>i. f i \<noteq> v" i] i(2) by simp
  then have b: "m < n" using i(1) by linarith
  have c: "\<forall>k<m. f k = v" unfolding m_def using not_less_Least by blast
  from a b c show ?thesis by blast
qed

lemma measure_distance_bound:
  assumes "distance s < MEASURE_XMIT_TIMEOUT"
  shows "distance (measure_dist gpio s) < MEASURE_XMIT_TIMEOUT"
  using assms by (auto simp: measure_dist_def Let_def split: prod.splits)

text \<open>
  Claim C1. A call of \<^verbatim>\<open>measure\<close> times out when the first \<^verbatim>\<open>MEASURE_START_TIMEOUT\<close>
  reads of the line are all 0 (the echo-start wait reaches its bound before the line goes
  high), or when the line leaves 0 at some read \<open>j\<close> within that bound and the next
  \<^verbatim>\<open>MEASURE_XMIT_TIMEOUT\<close> reads are all 1 (the echo-width wait reaches its bound before the
  line goes low). In both cases the status becomes 1 (ERROR) and the stored distance keeps
  its value. In every other case the status becomes 0 (OPERATIONAL) and the distance becomes
  the tick count \<open>m\<close> of the echo-width wait: the number of reads after read \<open>j\<close> for which the
  line stayed at 1.
\<close>

theorem measure_outcome:
  "((\<forall>k<MEASURE_START_TIMEOUT. gpio k = 0) \<or>
    (\<exists>j<MEASURE_START_TIMEOUT. (\<forall>k<j. gpio k = 0) \<and> gpio j \<noteq> 0 \<and>
       (\<forall>i<MEASURE_XMIT_TIMEOUT. gpio (Suc j + i) = 1))
    \<longrightarrow> status (measure_dist gpio s) = 1 \<and> distance (measure_dist gpio s) = distance s) \<and>
   (\<not> ((\<forall>k<MEASURE_START_TIMEOUT. gpio k = 0) \<or>
        (\<exists>j<MEASURE_START_TIMEOUT. (\<forall>k<j. gpio k = 0) \<and> gpio j \<noteq> 0 \<and>
           (\<forall>i<MEASURE_XMIT_TIMEOUT. gpio (Suc j + i) = 1)))
    \<longrightarrow> status (measure_dist gpio s) = 0 \<and>
        (\<exists>j<MEASURE_START_TIMEOUT. \<exists>m<MEASURE_XMIT_TIMEOUT.
           (\<forall>k<j. gpio k = 0) \<and> gpio j \<noteq> 0 \<and>
           (\<forall>i<m. gpio (Suc j + i) = 1) \<and> gpio (Suc j + m) \<noteq> 1 \<and>
           distance (measure_dist gpio s) = m))"
proof (rule conjI; rule impI)
  assume "(\<forall>k<MEASURE_START_TIMEOUT. gpio k = 0) \<or>
    (\<exists>j<MEASURE_START_TIMEOUT. (\<forall>k<j. gpio k = 0) \<and> gpio j \<noteq> 0 \<and>
       (\<forall>i<MEASURE_XMIT_TIMEOUT. gpio (Suc j + i) = 1))"
  then have "measure_dist gpio s = s\<lparr>status := 1\<rparr>"
  proof
    assume "\<forall>k<MEASURE_START_TIMEOUT. gpio k = 0"
    then have "poll gpio 0 MEASURE_START_TIMEOUT 0 0 =
        (MEASURE_START_TIMEOUT, Suc (0 + MEASURE_START_TIMEOUT))"
      by (intro poll_timeout) simp
    then show ?thesis by (simp add: measure_dist_def)
  next
    assume "\<exists>j<MEASURE_START_TIMEOUT. (\<forall>k<j. gpio k = 0) \<and> gpio j \<noteq> 0 \<and>
       (\<forall>i<MEASURE_XMIT_TIMEOUT. gpio (Suc j + i) = 1)"
    then obtain j where j: "j < MEASURE_START_TIMEOUT" "\<forall>k<j. gpio k = 0" "gpio j \<noteq> 0"
      "\<forall>i<MEASURE_XMIT_TIMEOUT. gpio (Suc j + i) = 1" by blast
    have p1: "poll gpio 0 MEASURE_START_TIMEOUT 0 0 = (j, Suc (0 + j))"
      using j by (intro poll_change) simp_all
    have p2: "poll gpio 1 MEASURE_XMIT_TIMEOUT (Suc j) 0 =
        (MEASURE_XMIT_TIMEOUT, Suc (Suc j + MEASURE_XMIT_TIMEOUT))"
      using j by (intro poll_timeout) simp
    show ?thesis using j(1) p1 p2 by (simp add: measure_dist_def)
  qed
  then show "status (measure_dist gpio s) = 1 \<and> distance (measure_dist gpio s) = distance s"
    by simp
next
  assume neg: "\<not> ((\<forall>k<MEASURE_START_TIMEOUT. gpio k = 0) \<or>
        (\<exists>j<MEASURE_START_TIMEOUT. (\<forall>k<j. gpio k = 0) \<and> gpio j \<noteq> 0 \<and>
           (\<forall>i<MEASURE_XMIT_TIMEOUT. gpio (Suc j + i) = 1)))"
  then have "\<exists>k<MEASURE_START_TIMEOUT. gpio k \<noteq> 0" by blast
  from first_change [OF this] obtain j where j: "j < MEASURE_START_TIMEOUT"
    "\<forall>k<j. gpio k = 0" "gpio j \<noteq> 0" by blast
  with neg have "\<exists>i<MEASURE_XMIT_TIMEOUT. gpio (Suc j + i) \<noteq> 1" by blast
  from first_change [OF this] obtain m where m: "m < MEASURE_XMIT_TIMEOUT"
    "\<forall>i<m. gpio (Suc j + i) = 1" "gpio (Suc j + m) \<noteq> 1" by blast
  have p1: "poll gpio 0 MEASURE_START_TIMEOUT 0 0 = (j, Suc (0 + j))"
    using j by (intro poll_change) simp_all
  have p2: "poll gpio 1 MEASURE_XMIT_TIMEOUT (Suc j) 0 = (m, Suc (Suc j + m))"
    using m by (intro poll_change) simp_all
  have r: "measure_dist gpio s = s\<lparr>status := 0, distance := m\<rparr>"
    using j(1) m(1) p1 p2 by (simp add: measure_dist_def)
  then have "status (measure_dist gpio s) = 0" by simp
  moreover have "\<exists>j<MEASURE_START_TIMEOUT. \<exists>m<MEASURE_XMIT_TIMEOUT.
           (\<forall>k<j. gpio k = 0) \<and> gpio j \<noteq> 0 \<and>
           (\<forall>i<m. gpio (Suc j + i) = 1) \<and> gpio (Suc j + m) \<noteq> 1 \<and>
           distance (measure_dist gpio s) = m"
    using j m r by auto
  ultimately show "status (measure_dist gpio s) = 0 \<and>
        (\<exists>j<MEASURE_START_TIMEOUT. \<exists>m<MEASURE_XMIT_TIMEOUT.
           (\<forall>k<j. gpio k = 0) \<and> gpio j \<noteq> 0 \<and>
           (\<forall>i<m. gpio (Suc j + i) = 1) \<and> gpio (Suc j + m) \<noteq> 1 \<and>
           distance (measure_dist gpio s) = m)" by simp
qed


theorem measure_outcome_witness:
  "(status (measure_dist (\<lambda>k. 0) \<lparr>distance = 7, status = 0\<rparr>) = 1 \<and>
    distance (measure_dist (\<lambda>k. 0) \<lparr>distance = 7, status = 0\<rparr>) = 7) \<and>
   (status (measure_dist (\<lambda>k. if 2 \<le> k then 1 else 0) \<lparr>distance = 7, status = 0\<rparr>) = 1 \<and>
    distance (measure_dist (\<lambda>k. if 2 \<le> k then 1 else 0) \<lparr>distance = 7, status = 0\<rparr>) = 7) \<and>
   (status (measure_dist (\<lambda>k. if 2 \<le> k \<and> k < 5 then 1 else 0) \<lparr>distance = 7, status = 1\<rparr>) = 0 \<and>
    distance (measure_dist (\<lambda>k. if 2 \<le> k \<and> k < 5 then 1 else 0) \<lparr>distance = 7, status = 1\<rparr>) = 2)"
proof (intro conjI)
  note a = measure_outcome [where gpio = "\<lambda>k. 0" and s = "\<lparr>distance = 7, status = 0\<rparr>"]
  show "status (measure_dist (\<lambda>k. 0) \<lparr>distance = 7, status = 0\<rparr>) = 1"
    and "distance (measure_dist (\<lambda>k. 0) \<lparr>distance = 7, status = 0\<rparr>) = 7"
    using a by simp_all
next
  let ?g = "\<lambda>k::nat. if 2 \<le> k then 1 else (0::int)"
  note b = measure_outcome [where gpio = ?g and s = "\<lparr>distance = 7, status = 0\<rparr>"]
  have "\<exists>j<MEASURE_START_TIMEOUT. (\<forall>k<j. ?g k = 0) \<and> ?g j \<noteq> 0 \<and>
      (\<forall>i<MEASURE_XMIT_TIMEOUT. ?g (Suc j + i) = 1)"
    by (rule exI [of _ 2]) (simp add: MEASURE_START_TIMEOUT_def)
  with b show "status (measure_dist ?g \<lparr>distance = 7, status = 0\<rparr>) = 1"
    and "distance (measure_dist ?g \<lparr>distance = 7, status = 0\<rparr>) = 7"
    by simp_all
next
  let ?g = "\<lambda>k::nat. if 2 \<le> k \<and> k < 5 then 1 else (0::int)"
  note c = measure_outcome [where gpio = ?g and s = "\<lparr>distance = 7, status = 1\<rparr>"]
  have start: "\<not> (\<forall>k<MEASURE_START_TIMEOUT. ?g k = 0)"
    by (simp add: MEASURE_START_TIMEOUT_def) (rule exI [of _ 2], simp)
  have width: "\<not> (\<exists>j<MEASURE_START_TIMEOUT. (\<forall>k<j. ?g k = 0) \<and> ?g j \<noteq> 0 \<and>
      (\<forall>i<MEASURE_XMIT_TIMEOUT. ?g (Suc j + i) = 1))"
  proof
    assume "\<exists>j<MEASURE_START_TIMEOUT. (\<forall>k<j. ?g k = 0) \<and> ?g j \<noteq> 0 \<and>
      (\<forall>i<MEASURE_XMIT_TIMEOUT. ?g (Suc j + i) = 1)"
    then obtain j where "\<forall>i<MEASURE_XMIT_TIMEOUT. ?g (Suc j + i) = 1" by blast
    moreover have "(5::nat) < MEASURE_XMIT_TIMEOUT" by (simp add: MEASURE_XMIT_TIMEOUT_def)
    ultimately have "?g (Suc j + 5) = 1" by blast
    then show False by simp
  qed
  from c start width have st: "status (measure_dist ?g \<lparr>distance = 7, status = 1\<rparr>) = 0"
    and ex: "\<exists>j<MEASURE_START_TIMEOUT. \<exists>m<MEASURE_XMIT_TIMEOUT.
      (\<forall>k<j. ?g k = 0) \<and> ?g j \<noteq> 0 \<and> (\<forall>i<m. ?g (Suc j + i) = 1) \<and> ?g (Suc j + m) \<noteq> 1 \<and>
      distance (measure_dist ?g \<lparr>distance = 7, status = 1\<rparr>) = m"
    by blast+
  from st show "status (measure_dist ?g \<lparr>distance = 7, status = 1\<rparr>) = 0" .
  from ex obtain j m where j: "\<forall>k<j. ?g k = 0" "?g j \<noteq> 0"
    and m: "\<forall>i<m. ?g (Suc j + i) = 1" "?g (Suc j + m) \<noteq> 1"
    and d: "distance (measure_dist ?g \<lparr>distance = 7, status = 1\<rparr>) = m" by blast
  have "2 \<le> j" using j(2) by (simp split: if_splits)
  moreover have "\<not> 2 < j" using j(1) by (auto dest: spec [of _ 2])
  ultimately have j2: "j = 2" by simp
  have "2 \<le> m" using m(2) j2 by (simp split: if_splits)
  moreover have "\<not> 2 < m" using m(1) j2 by (auto dest: spec [of _ 2])
  ultimately have "m = 2" by simp
  with d show "distance (measure_dist ?g \<lparr>distance = 7, status = 1\<rparr>) = 2" by simp
qed

section \<open>Properties of the history ring\<close>

lemma bind_res_simps [simp]:
  "bind_res (Inl e) f = Inl e" "bind_res (Inr x) f = f x"
  by (simp_all add: bind_res_def)


lemma ring_inv_init: "ring_inv N [] (history_init N)"
  by (simp add: ring_inv_def history_init_def)

lemma mod_shift_neq:
  fixes L i N :: nat
  assumes "0 < i" "i < N" "i \<le> L"
  shows "(L - i) mod N \<noteq> L mod N"
proof
  assume "(L - i) mod N = L mod N"
  then have "N dvd (L - (L - i))"
    by (metis diff_le_self mod_eq_dvd_iff_nat)
  then have "N dvd i" using assms by simp
  then show False using assms by (auto dest: dvd_imp_le)
qed

lemma next_pos:
  fixes L N :: nat
  assumes "0 < N" "0 < L"
  shows "(if int N \<le> int ((L - 1) mod N) + 1 then 0 else int ((L - 1) mod N) + 1) = int (L mod N)"
proof -
  obtain M where M: "L = Suc M" using assms(2) by (cases L) auto
  have "M mod N < N" using assms(1) by simp
  then show ?thesis unfolding M by (auto simp: mod_Suc)
qed

lemma add_history_inv:
  assumes inv: "ring_inv N es h" and N: "0 < N" and rd: "read_entry pf tk = Inr e"
  shows "\<exists>h'. add_history pf tk h = Inr h' \<and> ring_inv N (es @ [e]) h'"
proof -
  let ?L = "length es"
  have sz: "size_h h = int N" and len: "length (entries h) = N"
    and cnt: "count h = int (min ?L N)"
    and cur: "curr h = (if es = [] then - 1 else int ((?L - 1) mod N))"
    and ent: "\<forall>i < min ?L N. entries h ! ((?L - 1 - i) mod N) = rev es ! i"
    using inv by (auto simp: ring_inv_def)
  define pos where "pos = (if size_h h \<le> curr h + 1 then 0 else curr h + 1)"
  have pos: "pos = int (?L mod N)"
  proof (cases "es = []")
    case True
    then show ?thesis using N by (simp add: pos_def cur sz)
  next
    case False
    then have "0 < ?L" by simp
    have "pos = (if int N \<le> int ((?L - 1) mod N) + 1 then 0 else int ((?L - 1) mod N) + 1)"
      using False by (simp add: pos_def cur sz)
    also have "\<dots> = int (?L mod N)" using N \<open>0 < ?L\<close> by (rule next_pos)
    finally show ?thesis .
  qed
  have posN: "?L mod N < N" using N by simp
  define h' where "h' = h\<lparr>entries := (entries h)[?L mod N := e], curr := int (?L mod N),
     count := int (min (Suc ?L) N)\<rparr>"
  have run: "add_history pf tk h = Inr h'"
    using pos posN rd N unfolding add_history_def h'_def pos_def Let_def
    by (auto simp: sz len cnt min_def)
  have "ring_inv N (es @ [e]) h'"
    unfolding ring_inv_def
  proof (intro conjI allI impI)
    fix i assume i: "i < min (length (es @ [e])) N"
    show "entries h' ! ((length (es @ [e]) - 1 - i) mod N) = rev (es @ [e]) ! i"
    proof (cases i)
      case 0
      then show ?thesis using posN by (simp add: h'_def len)
    next
      case (Suc j)
      then have j: "j < min ?L N" using i by simp
      have neq: "(?L - i) mod N \<noteq> ?L mod N"
        using i Suc by (intro mod_shift_neq) auto
      have "entries h' ! ((?L - i) mod N) = entries h ! ((?L - 1 - j) mod N)"
        using neq Suc by (simp add: h'_def)
      also have "\<dots> = rev es ! j" using ent j by simp
      finally show ?thesis using Suc by simp
    qed
  qed (simp_all add: h'_def sz len)
  with run show ?thesis by blast
qed


lemma add_all_inv:
  assumes "0 < N"
  shows "ring_inv N es h \<Longrightarrow> map (read_entry pf) tks = map Inr rs \<Longrightarrow>
    \<exists>h'. add_all pf tks h = Inr h' \<and> ring_inv N (es @ rs) h'"
proof (induction tks arbitrary: es h rs)
  case Nil
  then show ?case by simp
next
  case (Cons tk tks)
  from Cons.prems(2) obtain r rs' where rs: "rs = r # rs'"
    and r: "read_entry pf tk = Inr r" and rest: "map (read_entry pf) tks = map Inr rs'"
    by (cases rs) auto
  from add_history_inv [OF Cons.prems(1) assms r] obtain h1
    where h1: "add_history pf tk h = Inr h1" "ring_inv N (es @ [r]) h1" by blast
  from Cons.IH [OF h1(2) rest] obtain h' where
    "add_all pf tks h1 = Inr h'" "ring_inv N ((es @ [r]) @ rs') h'" by blast
  then show ?case using h1(1) rs by simp
qed

lemma prev_pos:
  fixes a N :: nat
  assumes "0 < a" "0 < N"
  shows "(if int (a mod N) - 1 < 0 then int N - 1 else int (a mod N) - 1) = int ((a - 1) mod N)"
proof -
  obtain b where b: "a = Suc b" using assms(1) by (cases a) auto
  have "b mod N < N" using assms(2) by simp
  then show ?thesis unfolding b using assms(2) by (auto simp: mod_Suc)
qed

lemma walk_inv:
  assumes inv: "ring_inv N es h" and N: "0 < N"
  shows "k + n \<le> min (length es) N \<Longrightarrow>
    walk h n (int ((length es - 1 - k) mod N)) = Inr (map (\<lambda>i. rev es ! i) [k..<k + n])"
proof (induction n arbitrary: k)
  case 0
  then show ?case by simp
next
  case (Suc n)
  let ?L = "length es"
  have sz: "size_h h = int N" and len: "length (entries h) = N"
    and ent: "\<forall>i < min ?L N. entries h ! ((?L - 1 - i) mod N) = rev es ! i"
    using inv by (auto simp: ring_inv_def)
  define p where "p = (?L - 1 - k) mod N"
  define q where "q = (if int p - 1 < 0 then size_h h - 1 else int p - 1)"
  have here: "entries h ! p = rev es ! k"
    using ent Suc.prems by (simp add: p_def)
  have inb: "p < N" using N by (simp add: p_def)
  have unfold: "walk h (Suc n) (int p) = bind_res (walk h n q) (\<lambda>es'. Inr (entries h ! p # es'))"
    using inb by (simp add: len q_def)
  have rest: "walk h n q = Inr (map (\<lambda>i. rev es ! i) [Suc k..<Suc k + n])"
  proof (cases n)
    case 0
    then show ?thesis by simp
  next
    case (Suc m)
    then have pos: "0 < ?L - 1 - k" using Suc.prems by simp
    have eq: "?L - 1 - Suc k = (?L - 1 - k) - 1" by simp
    have "q = int ((?L - 1 - Suc k) mod N)"
      unfolding q_def p_def sz eq by (rule prev_pos [OF pos N])
    moreover have "walk h n (int ((?L - 1 - Suc k) mod N)) =
        Inr (map (\<lambda>i. rev es ! i) [Suc k..<Suc k + n])"
      using Suc.prems by (intro Suc.IH) simp
    ultimately show ?thesis by simp
  qed
  have "[k..<k + Suc n] = k # [Suc k..<Suc k + n]"
    by (simp add: upt_conv_Cons del: upt_Suc)
  then show ?case
    unfolding p_def [symmetric] unfold rest by (simp add: here)
qed

lemma take_as_map: "take n xs = map (\<lambda>i. xs ! i) [0..<min n (length xs)]"
proof -
  have "take n xs = take n (map (\<lambda>i. xs ! i) [0..<length xs])" by (simp add: map_nth)
  also have "\<dots> = map (\<lambda>i. xs ! i) (take n [0..<length xs])" by (simp add: take_map)
  also have "take n [0..<length xs] = [0..<min n (length xs)]"
    by (cases "n \<le> length xs") (simp_all add: min_def)
  finally show ?thesis .
qed

lemma snapshot_inv:
  assumes inv: "ring_inv N es h" and N: "0 < N"
  shows "snapshot_newest_first h = Inr (take N (rev es))"
proof -
  have cnt: "count h = int (min (length es) N)"
    and cur: "curr h = (if es = [] then - 1 else int ((length es - 1) mod N))"
    using inv by (auto simp: ring_inv_def)
  show ?thesis
  proof (cases "es = []")
    case True
    then show ?thesis by (simp add: snapshot_newest_first_def cnt)
  next
    case False
    have "walk h (min (length es) N) (int ((length es - 1 - 0) mod N)) =
        Inr (map (\<lambda>i. rev es ! i) [0..<0 + min (length es) N])"
      using inv N by (rule walk_inv) simp
    then show ?thesis
      using False by (simp add: snapshot_newest_first_def cnt cur take_as_map min.commute)
  qed
qed

section \<open>Decimal numbers, printed and parsed\<close>

lemma digit_char_props:
  assumes "d < 10"
  shows "isdigit (digit_char d)" "digit_val (digit_char d) = d"
    "digit_char d \<noteq> CHR ''\<newline>''" "digit_char d \<noteq> CHR 0x00" "\<not> isspace (digit_char d)"
    "digit_char d \<noteq> CHR ''-''" "digit_char d \<noteq> CHR ''+''"
proof -
  have "d \<in> {0, 1, 2, 3, 4, 5, 6, 7, 8, 9}" using assms by auto
  then show "isdigit (digit_char d)" "digit_val (digit_char d) = d"
    "digit_char d \<noteq> CHR ''\<newline>''" "digit_char d \<noteq> CHR 0x00" "\<not> isspace (digit_char d)"
    "digit_char d \<noteq> CHR ''-''" "digit_char d \<noteq> CHR ''+''"
    by (auto simp: digit_char_def isdigit_def digit_val_def isspace_def)
qed

lemma dec_digits: "c \<in> set (dec n) \<Longrightarrow> \<exists>d<10. c = digit_char d"
proof (induction n rule: dec.induct)
  case (1 n)
  show ?case
  proof (cases "n < 10")
    case True
    then show ?thesis using "1.prems" by (subst (asm) dec.simps) auto
  next
    case False
    then have "c \<in> set (dec (n div 10)) \<or> c = digit_char (n mod 10)"
      using "1.prems" by (subst (asm) dec.simps) auto
    then show ?thesis
    proof
      assume "c \<in> set (dec (n div 10))"
      then show ?thesis using False by (intro "1.IH") auto
    next
      assume "c = digit_char (n mod 10)"
      moreover have "n mod 10 < 10" by simp
      ultimately show ?thesis by blast
    qed
  qed
qed

lemma dec_nonempty: "dec n \<noteq> []"
  by (subst dec.simps) simp

lemma hd_dec: "\<exists>d<10. hd (dec n) = digit_char d"
  using dec_digits [of "hd (dec n)" n] dec_nonempty [of n] by simp

lemma dec_value:
  "foldl (\<lambda>a c. 10 * a + digit_val c) acc (dec n) = acc * 10 ^ length (dec n) + n"
proof (induction n arbitrary: acc rule: dec.induct)
  case (1 n)
  show ?case
  proof (cases "n < 10")
    case True
    then show ?thesis by (subst (1 2) dec.simps) (simp add: digit_char_props)
  next
    case False
    have "foldl (\<lambda>a c. 10 * a + digit_val c) acc (dec (n div 10)) =
        acc * 10 ^ length (dec (n div 10)) + n div 10"
      using False by (intro "1.IH") auto
    moreover have "digit_val (digit_char (n mod 10)) = n mod 10"
      by (simp add: digit_char_props)
    ultimately show ?thesis using False
      by (subst (1 2) dec.simps) (simp add: algebra_simps)
  qed
qed

lemma atol_digits_append:
  "\<forall>c\<in>set xs. isdigit c \<Longrightarrow>
   atol_digits acc (xs @ rest) = atol_digits (foldl (\<lambda>a c. 10 * a + digit_val c) acc xs) rest"
  by (induction xs arbitrary: acc) auto

lemma length_dec: "n < 10 ^ k \<Longrightarrow> 0 < k \<Longrightarrow> length (dec n) \<le> k"
proof (induction n arbitrary: k rule: dec.induct)
  case (1 n)
  show ?case
  proof (cases "n < 10")
    case True
    then show ?thesis using "1.prems" by (subst dec.simps) simp
  next
    case False
    obtain j where j: "k = Suc j" using "1.prems"(2) by (cases k) auto
    have "0 < j" using False "1.prems"(1) j by (cases j) auto
    moreover have "n div 10 < 10 ^ j" using "1.prems"(1) j by (simp add: div_less_iff_less_mult mult.commute)
    ultimately have "length (dec (n div 10)) \<le> j" using False by (intro "1.IH") auto
    then show ?thesis using False j by (subst dec.simps) simp
  qed
qed

section \<open>Reading what the module prints\<close>

lemma upto_newline_line: "CHR ''\<newline>'' \<notin> set xs \<Longrightarrow> upto_newline (xs @ ''\<newline>'' @ ys) = xs @ ''\<newline>''"
  by (induction xs) auto

lemma dec_no_newline: "CHR ''\<newline>'' \<notin> set (dec n)"
proof
  assume "CHR ''\<newline>'' \<in> set (dec n)"
  then obtain d where "d < 10" "CHR ''\<newline>'' = digit_char d" using dec_digits by blast
  then show False using digit_char_props(3) [of d] by simp
qed

lemma dec_no_nul: "CHR 0x00 \<notin> set (dec n)"
proof
  assume "CHR 0x00 \<in> set (dec n)"
  then obtain d where "d < 10" "CHR 0x00 = digit_char d" using dec_digits by blast
  then show False using digit_char_props(4) [of d] by simp
qed

lemma dec_all_digits: "\<forall>c\<in>set (dec n). isdigit c"
proof
  fix c assume "c \<in> set (dec n)"
  then obtain d where "d < 10" "c = digit_char d" using dec_digits by blast
  then show "isdigit c" using digit_char_props(1) by simp
qed

lemma fgets_dec:
  assumes "length (dec n) < k - 1"
  shows "fgets k (dec n @ ''\<newline>'') = Some (dec n @ ''\<newline>'')"
proof -
  have "upto_newline (dec n @ ''\<newline>'' @ []) = dec n @ ''\<newline>''"
    using dec_no_newline by (rule upto_newline_line)
  then show ?thesis using assms by (simp add: fgets_def)
qed

lemma cstr_dec: "cstr (dec n @ ''\<newline>'') = dec n @ ''\<newline>''"
  using dec_no_nul [of n] by (simp add: cstr_def takeWhile_append)

lemma not_digit_newline: "\<not> isdigit CHR ''\<newline>''"
  by (simp add: isdigit_def)

lemma atol_dec:
  assumes "int n < 2 ^ (w - 1)"
  shows "atol w (dec n @ ''\<newline>'') = Inr (int n)"
proof -
  obtain c cs where cs: "dec n = c # cs" using dec_nonempty [of n] by (cases "dec n") auto
  obtain d where d: "d < 10" "c = digit_char d" using hd_dec [of n] cs by auto
  have c: "\<not> isspace c" "c \<noteq> CHR ''-''" "c \<noteq> CHR ''+''"
    using d digit_char_props by auto
  have "atol_digits 0 (dec n @ ''\<newline>'') =
      atol_digits (foldl (\<lambda>a c. 10 * a + digit_val c) 0 (dec n)) ''\<newline>''"
    using dec_all_digits by (rule atol_digits_append)
  also have "\<dots> = n" by (simp add: dec_value not_digit_newline)
  finally have v: "atol_digits 0 (c # cs @ ''\<newline>'') = n" by (simp add: cs)
  have "- (2 ^ (w - 1)) \<le> int n"
    by (meson assms le_less_trans less_imp_le neg_le_0_iff_le of_nat_0_le_iff order_trans zero_le_power zero_le_numeral)
  then show ?thesis using assms c v by (simp add: atol_def cs Let_def)
qed

lemma pow63: "(2::nat) ^ 63 < 10 ^ 19" by simp

lemma length_dec_long:
  assumes "int n < 2 ^ (w - 1)" "w \<le> 64"
  shows "length (dec n) \<le> 19"
proof -
  have "(2::int) ^ (w - 1) \<le> 2 ^ 63" using assms(2) by (intro power_increasing) auto
  then have "int n < 2 ^ 63" using assms(1) by linarith
  then have "n < 2 ^ 63" by (metis of_nat_less_iff of_nat_numeral of_nat_power)
  then have "n < 10 ^ 19" using pow63 by linarith
  then show ?thesis by (intro length_dec) auto
qed

lemma read_distance_dec:
  assumes "fs (DATA_FILE_PREFIX @ unit) = Some (dec n @ ''\<newline>'')"
    and "length unit \<le> 3" and "int n < 2 ^ (long_bits pf - 1)" and "long_bits pf \<le> 64"
  shows "srf05_read_distance pf fs unit = Inr (int n)"
proof -
  have "length (dec n) \<le> 19" using assms(3,4) by (rule length_dec_long)
  then have "fgets 32 (dec n @ ''\<newline>'') = Some (dec n @ ''\<newline>'')"
    by (intro fgets_dec) simp
  moreover have "take 127 (DATA_FILE_PREFIX @ unit) = DATA_FILE_PREFIX @ unit"
    using assms(2) by (simp add: DATA_FILE_PREFIX_def)
  ultimately show ?thesis
    using assms(1,3) by (simp add: srf05_read_distance_def cstr_dec atol_dec)
qed

lemma read_status_published:
  "srf05_read_status (published w cmdiv s) 32 = Inr (if status s = 1 then ''ERROR'' else ''OPERATIONAL'')"
  by (simp add: srf05_read_status_def published_def STATUS_FILE_def DATA_FILE_PREFIX_def
      sysfs_status_show_def fgets_def cstr_def status_cut_index_def)

lemma read_unreadable:
  "fs (DATA_FILE_PREFIX @ unit) = None \<Longrightarrow> length unit \<le> 3 \<Longrightarrow> srf05_read_distance pf fs unit = Inr (- 1)"
  by (simp add: srf05_read_distance_def DATA_FILE_PREFIX_def)

lemma published_raw:
  "published w cmdiv s (DATA_FILE_PREFIX @ ''raw'') = Some (dec (distance s) @ ''\<newline>'')"
  by (simp add: published_def sysfs_distance_raw_show_def)

lemma published_cm:
  assumes "0 < cmdiv" "cmdiv < 2 ^ w"
  shows "published w cmdiv s (DATA_FILE_PREFIX @ ''cm'') =
    Some (dec (nat (int (distance s) div cmdiv)) @ ''\<newline>'')"
proof -
  have "cmdiv mod 2 ^ w = cmdiv" using assms by simp
  moreover have "nat (int (distance s) div cmdiv) = distance s div nat cmdiv"
    using assms(1) by (simp add: nat_div_distrib)
  ultimately show ?thesis
    using assms(1) by (simp add: published_def sysfs_distance_cm_show_def DATA_FILE_PREFIX_def)
qed

lemma published_values:
  assumes "0 < cmdiv" "cmdiv < 2 ^ long_bits pf"
    and "int (distance s) < 2 ^ (long_bits pf - 1)" "long_bits pf \<le> 64"
  shows "srf05_read_distance pf (published (long_bits pf) cmdiv s) ''raw'' = Inr (int (distance s))"
    and "srf05_read_distance pf (published (long_bits pf) cmdiv s) ''cm'' =
      Inr (int (distance s) div cmdiv)"
proof -
  show "srf05_read_distance pf (published (long_bits pf) cmdiv s) ''raw'' = Inr (int (distance s))"
    using assms(3,4) by (intro read_distance_dec published_raw) simp_all
  have nonneg: "0 \<le> int (distance s) div cmdiv" using assms(1) by (simp add: pos_imp_zdiv_nonneg_iff)
  have "int (distance s) div cmdiv = int (distance s div nat cmdiv)"
    using assms(1) by (simp add: zdiv_int)
  then have "int (distance s) div cmdiv \<le> int (distance s)"
    by (simp add: div_le_dividend)
  then have "int (distance s) div cmdiv < 2 ^ (long_bits pf - 1)"
    using assms(3) by linarith
  then have "int (nat (int (distance s) div cmdiv)) < 2 ^ (long_bits pf - 1)"
    using nonneg by (simp only: int_nat_eq if_True)
  then have "srf05_read_distance pf (published (long_bits pf) cmdiv s) ''cm'' =
      Inr (int (nat (int (distance s) div cmdiv)))"
    using assms by (intro read_distance_dec published_cm) simp_all
  then show "srf05_read_distance pf (published (long_bits pf) cmdiv s) ''cm'' =
      Inr (int (distance s) div cmdiv)"
    using nonneg by simp
qed

lemma read_entry_published:
  assumes "0 < cmdiv" "cmdiv < 2 ^ long_bits pf"
    and "int (distance s) < 2 ^ (long_bits pf - 1)" "long_bits pf \<le> 64"
  shows "read_entry pf \<lparr>now = t, sysfs = published (long_bits pf) cmdiv s\<rparr> =
    Inr \<lparr>ts = t, dcm = int (distance s) div cmdiv, draw = int (distance s),
         stat = (if status s = 1 then 0 else 1)\<rparr>"
  using published_values [OF assms]
  by (simp add: read_entry_def read_status_published)

lemma latest_published:
  assumes "0 < cmdiv" "cmdiv < 2 ^ long_bits pf"
    and "int (distance s) < 2 ^ (long_bits pf - 1)" "long_bits pf \<le> 64"
  shows "handler_content pf (published (long_bits pf) cmdiv s) h ''/sensor/srf05'' =
    Inr (Some (int (length (latest_content (int (distance s)) (int (distance s) div cmdiv)
                 (if status s = 1 then ''ERROR'' else ''OPERATIONAL''))),
               take (length (entries h) * 128 - 1)
                 (latest_content (int (distance s)) (int (distance s) div cmdiv)
                   (if status s = 1 then ''ERROR'' else ''OPERATIONAL''))))"
  using published_values [OF assms]
  by (simp add: handler_content_def read_status_published Let_def)

section \<open>The claims about rendered readings\<close>

lemma add_history_stores:
  assumes "add_history pf tk h = Inr h'"
  shows "\<exists>e. read_entry pf tk = Inr e \<and> 0 \<le> curr h' \<and> nat (curr h') < length (entries h') \<and>
    entries h' ! nat (curr h') = e"
proof -
  define pos where "pos = (if size_h h \<le> curr h + 1 then 0 else curr h + 1)"
  have inb: "\<not> (pos < 0 \<or> int (length (entries h)) \<le> pos)"
    using assms unfolding add_history_def pos_def Let_def by (auto split: if_splits)
  then obtain e where e: "read_entry pf tk = Inr e"
    using assms unfolding add_history_def pos_def Let_def
    by (cases "read_entry pf tk") (auto split: if_splits)
  have "curr h' = pos \<and> entries h' = (entries h)[nat pos := e]"
    using assms e inb unfolding add_history_def pos_def Let_def by (auto split: if_splits)
  then show ?thesis using e inb by auto
qed

lemma long_range:
  assumes "32 \<le> w"
  shows "(2::int) ^ 31 \<le> 2 ^ (w - 1)" and "(2::int) ^ 31 \<le> 2 ^ w"
proof -
  show "(2::int) ^ 31 \<le> 2 ^ (w - 1)" using assms by (intro power_increasing) auto
  show "(2::int) ^ 31 \<le> 2 ^ w" using assms by (intro power_increasing) auto
qed

text \<open>
  Claim C4, as amended. While the bridge publishes one state of the module, with a positive
  divisor and a distance below \<^verbatim>\<open>MEASURE_XMIT_TIMEOUT\<close> (every distance that
  \<^verbatim>\<open>measure\<close> stores is), on a platform whose \<^verbatim>\<open>long\<close> has 32 to 64 bits, the
  centimeter value of a rendered reading is its raw value divided by the divisor: in the reply
  to the latest-value query, in the entry that \<^verbatim>\<open>add_history\<close> reads, and in the slot of
  the history that \<^verbatim>\<open>add_history\<close> has written.
\<close>

theorem cm_is_raw_div:
  assumes "0 < cmdiv" and "cmdiv < 2 ^ 31"
    and "distance s < MEASURE_XMIT_TIMEOUT"
    and "32 \<le> long_bits pf" and "long_bits pf \<le> 64"
    and "fs = published (long_bits pf) cmdiv s"
    and "raw = int (distance s)"
    and "label = (if status s = 1 then ''ERROR'' else ''OPERATIONAL'')"
  shows "handler_content pf fs h ''/sensor/srf05'' =
      Inr (Some (int (length (latest_content raw (raw div cmdiv) label)),
                 take (length (entries h) * 128 - 1) (latest_content raw (raw div cmdiv) label))) \<and>
    read_entry pf \<lparr>now = t, sysfs = fs\<rparr> =
      Inr \<lparr>ts = t, dcm = raw div cmdiv, draw = raw, stat = (if status s = 1 then 0 else 1)\<rparr> \<and>
    (\<forall>h'. add_history pf \<lparr>now = t, sysfs = fs\<rparr> h = Inr h' \<longrightarrow>
       draw (entries h' ! nat (curr h')) = raw \<and>
       dcm (entries h' ! nat (curr h')) = raw div cmdiv)"
proof (intro conjI allI impI)
  have div: "cmdiv < 2 ^ long_bits pf"
    using assms(2) long_range(2) [OF assms(4)] by linarith
  have "int (distance s) < 2 ^ 31" using assms(3) by (simp add: MEASURE_XMIT_TIMEOUT_def)
  then have dist: "int (distance s) < 2 ^ (long_bits pf - 1)"
    using long_range(1) [OF assms(4)] by linarith
  show "handler_content pf fs h ''/sensor/srf05'' =
      Inr (Some (int (length (latest_content raw (raw div cmdiv) label)),
                 take (length (entries h) * 128 - 1) (latest_content raw (raw div cmdiv) label)))"
    unfolding assms(6,7,8) using assms(1) div dist assms(5) by (rule latest_published)
  show rd: "read_entry pf \<lparr>now = t, sysfs = fs\<rparr> =
      Inr \<lparr>ts = t, dcm = raw div cmdiv, draw = raw, stat = (if status s = 1 then 0 else 1)\<rparr>"
    unfolding assms(6,7) using assms(1) div dist assms(5) by (rule read_entry_published)
  fix h' assume "add_history pf \<lparr>now = t, sysfs = fs\<rparr> h = Inr h'"
  from add_history_stores [OF this] rd
  show "draw (entries h' ! nat (curr h')) = raw" "dcm (entries h' ! nat (curr h')) = raw div cmdiv"
    by auto
qed

lemma dec_small [simp]: "n < 10 \<Longrightarrow> dec n = [digit_char n]"
  by (subst dec.simps) simp

lemma dec_big: "\<not> n < 10 \<Longrightarrow> dec n = dec (n div 10) @ [digit_char (n mod 10)]"
  by (subst dec.simps) simp

theorem cm_is_raw_div_witness:
  "handler_content demo_platform (published 32 450 \<lparr>distance = 900, status = 0\<rparr>) history
      ''/sensor/srf05'' =
     Inr (Some (67, ''{\"distance_raw\" : 900, \"distance_cm\" : 2, \"status\" : \"OPERATIONAL\"}'')) \<and>
   read_entry demo_platform \<lparr>now = 1354323845, sysfs = published 32 450 \<lparr>distance = 900, status = 0\<rparr>\<rparr> =
     Inr \<lparr>ts = 1354323845, dcm = 2, draw = 900, stat = 1\<rparr>"
  using cm_is_raw_div [where pf = demo_platform and cmdiv = 450
      and s = "\<lparr>distance = 900, status = 0\<rparr>" and h = history and t = 1354323845,
      OF _ _ _ _ _ refl refl refl]
  by (simp add: demo_platform_def history_def history_init_def MAX_HISTORY_def
      MEASURE_XMIT_TIMEOUT_def latest_content_def fmt_d_def dec_big digit_char_def)

lemma read_status_unreadable: "fs STATUS_FILE = None \<Longrightarrow> srf05_read_status fs 32 = Inr ''UNKNOWN''"
  by (simp add: srf05_read_status_def)

text \<open>
  Claim C4 as stated, for every rendered reading, fails in two ways. When the sysfs files
  cannot be opened, the latest reading and the history entry have the raw value -1 and the
  centimeter value -1, and -1 / 450 is 0 in C, not -1. When a measurement falls between the
  reads of the two files, the reading has the raw value 900 and the centimeter value 1, and
  900 / 450 is 2, not 1.
\<close>

theorem cm_not_raw_div_counterexample:
  "handler_content demo_platform (\<lambda>path. None) history ''/sensor/srf05'' =
     Inr (Some (63, ''{\"distance_raw\" : -1, \"distance_cm\" : -1, \"status\" : \"UNKNOWN\"}'')) \<and>
   read_entry demo_platform \<lparr>now = 1354323845, sysfs = (\<lambda>path. None)\<rparr> =
     Inr \<lparr>ts = 1354323845, dcm = - 1, draw = - 1, stat = 0\<rparr> \<and>
   c_div (- 1) 450 \<noteq> - 1 \<and>
   handler_content demo_platform torn_sysfs history ''/sensor/srf05'' =
     Inr (Some (67, ''{\"distance_raw\" : 900, \"distance_cm\" : 1, \"status\" : \"OPERATIONAL\"}'')) \<and>
   c_div 900 450 \<noteq> 1"
proof (intro conjI)
  show "handler_content demo_platform (\<lambda>path. None) history ''/sensor/srf05'' =
     Inr (Some (63, ''{\"distance_raw\" : -1, \"distance_cm\" : -1, \"status\" : \"UNKNOWN\"}''))"
    by (simp add: handler_content_def read_unreadable read_status_unreadable latest_content_def
        fmt_d_def digit_char_def history_def history_init_def MAX_HISTORY_def)
  show "read_entry demo_platform \<lparr>now = 1354323845, sysfs = (\<lambda>path. None)\<rparr> =
     Inr \<lparr>ts = 1354323845, dcm = - 1, draw = - 1, stat = 0\<rparr>"
    by (simp add: read_entry_def read_unreadable read_status_unreadable)
  show "c_div (- 1) 450 \<noteq> - 1" "c_div 900 450 \<noteq> 1" by (simp_all add: c_div_def)
  have raw: "srf05_read_distance demo_platform torn_sysfs ''raw'' = Inr (int 900)"
    by (rule read_distance_dec)
      (simp_all add: torn_sysfs_def published_def sysfs_distance_raw_show_def
        DATA_FILE_PREFIX_def demo_platform_def)
  have cm: "srf05_read_distance demo_platform torn_sysfs ''cm'' = Inr (int 1)"
    by (rule read_distance_dec)
      (simp_all add: torn_sysfs_def published_def sysfs_distance_cm_show_def
        DATA_FILE_PREFIX_def demo_platform_def)
  have st: "srf05_read_status torn_sysfs 32 = Inr ''OPERATIONAL''"
    by (simp add: srf05_read_status_def torn_sysfs_def published_def STATUS_FILE_def
        DATA_FILE_PREFIX_def sysfs_status_show_def fgets_def cstr_def status_cut_index_def)
  show "handler_content demo_platform torn_sysfs history ''/sensor/srf05'' =
     Inr (Some (67, ''{\"distance_raw\" : 900, \"distance_cm\" : 1, \"status\" : \"OPERATIONAL\"}''))"
    using raw cm st
    by (simp add: handler_content_def latest_content_def fmt_d_def dec_big digit_char_def
        history_def history_init_def MAX_HISTORY_def)
qed

text \<open>
  Claim C5. When none of the three sysfs files can be opened, the handler answers the
  latest-value query with the reply 200 whose content is the document with
  \<^verbatim>\<open>distance_raw\<close> -1, \<^verbatim>\<open>distance_cm\<close> -1 and \<^verbatim>\<open>status\<close> \<^verbatim>\<open>"UNKNOWN"\<close>; it returns
  1 and no fault occurs.
\<close>

theorem latest_unreadable:
  assumes "fs (DATA_FILE_PREFIX @ ''raw'') = None" and "fs (DATA_FILE_PREFIX @ ''cm'') = None"
    and "fs STATUS_FILE = None" and "entries h \<noteq> []"
  shows "begin_request_handler pf fs h ''/sensor/srf05'' =
    Inr (1, Some (http_reply 63
      ''{\"distance_raw\" : -1, \"distance_cm\" : -1, \"status\" : \"UNKNOWN\"}''))"
proof -
  have "0 < length (entries h)" using assms(4) by simp
  then have "63 \<le> length (entries h) * 128 - 1" by linarith
  then show ?thesis
    using assms(1-3)
    by (simp add: begin_request_handler_def handler_content_def read_unreadable
        read_status_unreadable latest_content_def fmt_d_def digit_char_def)
qed

theorem latest_unreadable_witness:
  "begin_request_handler demo_platform (\<lambda>path. None) history ''/sensor/srf05'' =
    Inr (1, Some (http_reply 63
      ''{\"distance_raw\" : -1, \"distance_cm\" : -1, \"status\" : \"UNKNOWN\"}''))"
  using latest_unreadable [of "\<lambda>path. None" history demo_platform]
  by (simp add: history_def history_init_def MAX_HISTORY_def)

text \<open>
  Claim C8. With no entry in the history (\<^verbatim>\<open>count\<close> is 0) the snapshot is the empty
  sequence and the handler answers the history query with the reply 200 whose content is
  \<^verbatim>\<open>{ "history" : [ ] }\<close>: the JSON document \<^verbatim>\<open>{"history": []}\<close>, from which it differs
  only in white space outside strings.
\<close>

theorem history_empty:
  assumes "count h = 0" and "entries h \<noteq> []"
  shows "snapshot_newest_first h = Inr [] \<and>
    begin_request_handler pf fs h ''/sensor/srf05/history'' =
      Inr (1, Some (http_reply 19 ''{ \"history\" : [ ] }'')) \<and>
    json_strip False ''{ \"history\" : [ ] }'' = json_strip False ''{\"history\": []}''"
proof -
  have "0 < length (entries h)" using assms(2) by simp
  then have "19 < length (entries h) * 128" by linarith
  then show ?thesis
    using assms(1)
    by (simp add: snapshot_newest_first_def begin_request_handler_def handler_content_def
        strcat_def json_ws_def)
qed

theorem history_empty_witness:
  "snapshot_newest_first history = Inr [] \<and>
    begin_request_handler demo_platform (\<lambda>path. None) history ''/sensor/srf05/history'' =
      Inr (1, Some (http_reply 19 ''{ \"history\" : [ ] }'')) \<and>
    json_strip False ''{ \"history\" : [ ] }'' = json_strip False ''{\"history\": []}''"
  using history_empty [of history demo_platform "\<lambda>path. None"]
  by (simp add: history_def history_init_def MAX_HISTORY_def)

section \<open>The history query renders the snapshot\<close>

lemma length_histline: "length (histline pf first e) \<le> 127"
  by (simp add: histline_def Let_def)

lemma length_history_lines: "length (history_lines pf first es) \<le> 127 * length es"
proof (induction es arbitrary: first)
  case Nil
  then show ?case by simp
next
  case (Cons e es)
  have "length (histline pf first e) \<le> 127" by (rule length_histline)
  moreover have "length (history_lines pf False es) \<le> 127 * length es" by (rule Cons.IH)
  ultimately show ?case by simp
qed

lemma history_loop_walk:
  "walk h n pos = Inr es \<Longrightarrow> length c + length (history_lines pf first es) < cap \<Longrightarrow>
   history_loop pf h cap n pos first c = Inr (c @ history_lines pf first es)"
proof (induction n arbitrary: pos es c first)
  case 0
  then show ?case by simp
next
  case (Suc n)
  let ?q = "if pos - 1 < 0 then size_h h - 1 else pos - 1"
  from Suc.prems(1) have inb: "\<not> (pos < 0 \<or> int (length (entries h)) \<le> pos)"
    by (auto split: if_splits)
  with Suc.prems(1) obtain es' where es': "walk h n ?q = Inr es'"
    and es: "es = entries h ! nat pos # es'"
    by (cases "walk h n ?q") (auto split: if_splits)
  let ?l = "histline pf first (entries h ! nat pos)"
  have fit: "length c + length ?l < cap" using Suc.prems(2) es by simp
  have "length (c @ ?l) + length (history_lines pf False es') < cap"
    using Suc.prems(2) es by simp
  with es' have "history_loop pf h cap n ?q False (c @ ?l) =
      Inr ((c @ ?l) @ history_lines pf False es')"
    by (rule Suc.IH)
  then show ?case using inb fit es by (simp add: strcat_def)
qed

lemma handler_history:
  assumes "snapshot_newest_first h = Inr es"
    and "length (history_lines pf True es) + 19 < length (entries h) * 128"
  shows "handler_content pf fs h ''/sensor/srf05/history'' =
    Inr (Some (int (length (history_lines pf True es) + 19),
               ''{ \"history\" : [ '' @ history_lines pf True es @ ''] }''))"
proof -
  let ?cap = "length (entries h) * 128"
  have "history_loop pf h ?cap (nat (count h)) (curr h) True ''{ \"history\" : [ '' =
      Inr (''{ \"history\" : [ '' @ history_lines pf True es)"
    using assms by (intro history_loop_walk) (simp_all add: snapshot_newest_first_def)
  then show ?thesis
    using assms(2) by (simp add: handler_content_def strcat_def)
qed

lemma ring_inv_length: "ring_inv N es h \<Longrightarrow> length (entries h) = N"
  by (simp add: ring_inv_def)

lemma history_lines_fit:
  assumes "20 \<le> N" and "length es \<le> N"
  shows "length (history_lines pf first es) + 19 < N * 128"
proof -
  have "length (history_lines pf first es) \<le> 127 * length es"
    by (rule length_history_lines)
  also have "\<dots> \<le> 127 * N" using assms(2) by simp
  finally show ?thesis using assms(1) by linarith
qed

section \<open>The claims about the ring\<close>

lemma read_entry_demo:
  assumes "int raw < 2 ^ 31"
  shows "read_entry demo_platform (demo_tick t raw) =
    Inr \<lparr>ts = t, dcm = int raw div 450, draw = int raw, stat = 1\<rparr>"
  using read_entry_published [where pf = demo_platform and cmdiv = 450
      and s = "\<lparr>distance = raw, status = 0\<rparr>" and t = t] assms
  by (simp add: demo_platform_def demo_tick_def)

text \<open>
  Claim C2. After more than \<open>N\<close> appends to an empty history of capacity \<open>N\<close> (48 in the
  program), each of which reads its entry without fault, the newest-first snapshot has exactly
  \<open>N\<close> entries: the last \<open>N\<close> readings in reverse order of insertion; the older ones are
  gone. The handler renders exactly these entries, in this order, when their lines fit its
  buffer, which they do for every capacity from 20 on. With \<open>N = 3\<close> and the raw values 10, 20, 30, 40 the snapshot holds 40, 30, 20.
\<close>

theorem snapshot_after_wrap:
  assumes "0 < N" and "N < length tks" and "map (read_entry pf) tks = map Inr rs"
    and "newest = rev (drop (length rs - N) rs)"
  shows "\<exists>h. add_all pf tks (history_init N) = Inr h \<and>
    snapshot_newest_first h = Inr newest \<and> length newest = N \<and>
    (20 \<le> N \<or> length (history_lines pf True newest) + 19 < N * 128 \<longrightarrow>
       handler_content pf fs h ''/sensor/srf05/history'' =
         Inr (Some (int (length (history_lines pf True newest) + 19),
                    ''{ \"history\" : [ '' @ history_lines pf True newest @ ''] }'')))"
proof -
  have len: "length rs = length tks" using assms(3) by (metis length_map)
  from add_all_inv [OF assms(1) ring_inv_init assms(3)] obtain h
    where h: "add_all pf tks (history_init N) = Inr h" "ring_inv N rs h" by auto
  have "snapshot_newest_first h = Inr (take N (rev rs))"
    using h(2) assms(1) by (rule snapshot_inv)
  moreover have "take N (rev rs) = newest" by (simp add: take_rev assms(4))
  ultimately have snap: "snapshot_newest_first h = Inr newest" by simp
  have ln: "length newest = N" using assms(2) len by (simp add: assms(4))
  moreover have "20 \<le> N \<or> length (history_lines pf True newest) + 19 < N * 128 \<longrightarrow>
       handler_content pf fs h ''/sensor/srf05/history'' =
         Inr (Some (int (length (history_lines pf True newest) + 19),
                    ''{ \"history\" : [ '' @ history_lines pf True newest @ ''] }''))"
    using handler_history [OF snap, of pf fs] ring_inv_length [OF h(2)]
      history_lines_fit [of N newest pf True] ln by auto
  ultimately show ?thesis using h(1) snap by blast
qed

lemma demo_lines_wrap:
  "history_lines demo_platform True
     [\<lparr>ts = 1354334645, dcm = 0, draw = 40, stat = 1\<rparr>,
      \<lparr>ts = 1354331045, dcm = 0, draw = 30, stat = 1\<rparr>,
      \<lparr>ts = 1354327445, dcm = 0, draw = 20, stat = 1\<rparr>] =
   ''{\"date\" : \"2012-12-01\", \"time\" : \"04:04:05\", \"distance_raw\" : 40, \"distance_cm\" : 0, \"status\" : \"OPERATIONAL\"}'' @
   '', {\"date\" : \"2012-12-01\", \"time\" : \"03:04:05\", \"distance_raw\" : 30, \"distance_cm\" : 0, \"status\" : \"OPERATIONAL\"}'' @
   '', {\"date\" : \"2012-12-01\", \"time\" : \"02:04:05\", \"distance_raw\" : 20, \"distance_cm\" : 0, \"status\" : \"OPERATIONAL\"}''"
  by code_simp

theorem snapshot_after_wrap_witness:
  "\<exists>h. add_all demo_platform
      [demo_tick 1354323845 10, demo_tick 1354327445 20, demo_tick 1354331045 30,
       demo_tick 1354334645 40] (history_init 3) = Inr h \<and>
    snapshot_newest_first h =
      Inr [\<lparr>ts = 1354334645, dcm = 0, draw = 40, stat = 1\<rparr>,
           \<lparr>ts = 1354331045, dcm = 0, draw = 30, stat = 1\<rparr>,
           \<lparr>ts = 1354327445, dcm = 0, draw = 20, stat = 1\<rparr>] \<and>
    handler_content demo_platform (\<lambda>path. None) h ''/sensor/srf05/history'' =
      Inr (Some (353,
        ''{ \"history\" : [ '' @
        ''{\"date\" : \"2012-12-01\", \"time\" : \"04:04:05\", \"distance_raw\" : 40, \"distance_cm\" : 0, \"status\" : \"OPERATIONAL\"}'' @
        '', {\"date\" : \"2012-12-01\", \"time\" : \"03:04:05\", \"distance_raw\" : 30, \"distance_cm\" : 0, \"status\" : \"OPERATIONAL\"}'' @
        '', {\"date\" : \"2012-12-01\", \"time\" : \"02:04:05\", \"distance_raw\" : 20, \"distance_cm\" : 0, \"status\" : \"OPERATIONAL\"}'' @
        ''] }''))"
proof -
  have rd: "map (read_entry demo_platform)
      [demo_tick 1354323845 10, demo_tick 1354327445 20, demo_tick 1354331045 30,
       demo_tick 1354334645 40] =
    map Inr [\<lparr>ts = 1354323845, dcm = 0, draw = 10, stat = 1\<rparr>,
      \<lparr>ts = 1354327445, dcm = 0, draw = 20, stat = 1\<rparr>,
      \<lparr>ts = 1354331045, dcm = 0, draw = 30, stat = 1\<rparr>,
      \<lparr>ts = 1354334645, dcm = 0, draw = 40, stat = 1\<rparr>]"
    by (simp add: read_entry_demo)
  have newest: "[\<lparr>ts = 1354334645, dcm = 0, draw = 40, stat = 1\<rparr>,
      \<lparr>ts = 1354331045, dcm = 0, draw = 30, stat = 1\<rparr>,
      \<lparr>ts = 1354327445, dcm = 0, draw = 20, stat = 1\<rparr>] =
    rev (drop (length [\<lparr>ts = 1354323845, dcm = 0, draw = 10, stat = 1\<rparr>,
      \<lparr>ts = 1354327445, dcm = 0, draw = 20, stat = 1\<rparr>,
      \<lparr>ts = 1354331045, dcm = 0, draw = 30, stat = 1\<rparr>,
      \<lparr>ts = 1354334645, dcm = 0, draw = 40, stat = 1\<rparr>] - 3)
      [\<lparr>ts = 1354323845, dcm = 0, draw = 10, stat = 1\<rparr>,
      \<lparr>ts = 1354327445, dcm = 0, draw = 20, stat = 1\<rparr>,
      \<lparr>ts = 1354331045, dcm = 0, draw = 30, stat = 1\<rparr>,
      \<lparr>ts = 1354334645, dcm = 0, draw = 40, stat = 1\<rparr>])"
    by simp
  show ?thesis
    using snapshot_after_wrap [where N = 3 and fs = "\<lambda>path. None", OF _ _ rd newest]
    unfolding demo_lines_wrap by simp
qed

text \<open>
  Claim C6. After fewer than \<open>N\<close> appends to an empty history of capacity \<open>N\<close> the
  newest-first snapshot has as many entries as there were appends: all the readings, each
  once, in reverse order of insertion. The handler renders exactly these entries, in this
  order, when their lines fit its buffer, which they do for every capacity from 20 on.
\<close>

theorem snapshot_before_full:
  assumes "0 < N" and "length tks < N" and "map (read_entry pf) tks = map Inr rs"
  shows "\<exists>h. add_all pf tks (history_init N) = Inr h \<and>
    snapshot_newest_first h = Inr (rev rs) \<and> length (rev rs) = length tks \<and>
    (20 \<le> N \<or> length (history_lines pf True (rev rs)) + 19 < N * 128 \<longrightarrow>
       handler_content pf fs h ''/sensor/srf05/history'' =
         Inr (Some (int (length (history_lines pf True (rev rs)) + 19),
                    ''{ \"history\" : [ '' @ history_lines pf True (rev rs) @ ''] }'')))"
proof -
  have len: "length rs = length tks" using assms(3) by (metis length_map)
  from add_all_inv [OF assms(1) ring_inv_init assms(3)] obtain h
    where h: "add_all pf tks (history_init N) = Inr h" "ring_inv N rs h" by auto
  have "snapshot_newest_first h = Inr (take N (rev rs))"
    using h(2) assms(1) by (rule snapshot_inv)
  then have snap: "snapshot_newest_first h = Inr (rev rs)" using assms(2) len by simp
  have "20 \<le> N \<or> length (history_lines pf True (rev rs)) + 19 < N * 128 \<longrightarrow>
       handler_content pf fs h ''/sensor/srf05/history'' =
         Inr (Some (int (length (history_lines pf True (rev rs)) + 19),
                    ''{ \"history\" : [ '' @ history_lines pf True (rev rs) @ ''] }''))"
    using handler_history [OF snap, of pf fs] ring_inv_length [OF h(2)]
      history_lines_fit [of N "rev rs" pf True] assms(2) len by auto
  then show ?thesis using h(1) snap len by auto
qed

lemma demo_lines_two:
  "history_lines demo_platform True
     [\<lparr>ts = 1354327445, dcm = 0, draw = 20, stat = 1\<rparr>,
      \<lparr>ts = 1354323845, dcm = 0, draw = 10, stat = 1\<rparr>] =
   ''{\"date\" : \"2012-12-01\", \"time\" : \"02:04:05\", \"distance_raw\" : 20, \"distance_cm\" : 0, \"status\" : \"OPERATIONAL\"}'' @
   '', {\"date\" : \"2012-12-01\", \"time\" : \"01:04:05\", \"distance_raw\" : 10, \"distance_cm\" : 0, \"status\" : \"OPERATIONAL\"}''"
  by code_simp

theorem snapshot_before_full_witness:
  "\<exists>h. add_all demo_platform [demo_tick 1354323845 10, demo_tick 1354327445 20] history = Inr h \<and>
    snapshot_newest_first h =
      Inr [\<lparr>ts = 1354327445, dcm = 0, draw = 20, stat = 1\<rparr>,
           \<lparr>ts = 1354323845, dcm = 0, draw = 10, stat = 1\<rparr>] \<and>
    handler_content demo_platform (\<lambda>path. None) h ''/sensor/srf05/history'' =
      Inr (Some (241,
        ''{ \"history\" : [ '' @
        ''{\"date\" : \"2012-12-01\", \"time\" : \"02:04:05\", \"distance_raw\" : 20, \"distance_cm\" : 0, \"status\" : \"OPERATIONAL\"}'' @
        '', {\"date\" : \"2012-12-01\", \"time\" : \"01:04:05\", \"distance_raw\" : 10, \"distance_cm\" : 0, \"status\" : \"OPERATIONAL\"}'' @
        ''] }''))"
proof -
  have rd: "map (read_entry demo_platform) [demo_tick 1354323845 10, demo_tick 1354327445 20] =
    map Inr [\<lparr>ts = 1354323845, dcm = 0, draw = 10, stat = 1\<rparr>,
      \<lparr>ts = 1354327445, dcm = 0, draw = 20, stat = 1\<rparr>]"
    by (simp add: read_entry_demo)
  have newest: "rev [\<lparr>ts = 1354323845, dcm = 0, draw = 10, stat = 1\<rparr>,
      \<lparr>ts = 1354327445, dcm = 0, draw = 20, stat = 1\<rparr>] =
    [\<lparr>ts = 1354327445, dcm = 0, draw = 20, stat = 1\<rparr>,
      \<lparr>ts = 1354323845, dcm = 0, draw = 10, stat = 1\<rparr>]"
    by simp
  show ?thesis
    using snapshot_before_full [where N = MAX_HISTORY and fs = "\<lambda>path. None", OF _ _ rd]
    unfolding newest demo_lines_two by (simp add: history_def MAX_HISTORY_def)
qed

section \<open>The status buffer\<close>

lemma length_cstr: "length (cstr line) \<le> length line"
  by (simp add: cstr_def length_takeWhile_le)

lemma length_fgets: "fgets len content = Some line \<Longrightarrow> length line \<le> len - 1"
  by (auto simp: fgets_def split: if_splits)

text \<open>
  Claim C9. When the status file opens, \<^verbatim>\<open>srf05_read_status\<close> writes the terminator at
  index \<^verbatim>\<open>strlen(status) - 1\<close>. If the line that \<^verbatim>\<open>fgets\<close> has stored is not empty,
  that index is inside the buffer and the result is the line without its last character. If
  the stored line is empty, the index is -1, outside the buffer; and if \<^verbatim>\<open>fgets\<close> stores
  nothing, the buffer is read uninitialised. So the function is memory-safe exactly when the
  line read is not empty.
\<close>

theorem read_status_write_index:
  assumes "fs STATUS_FILE = Some content"
  shows "(fgets len content = Some line \<and> cstr line \<noteq> [] \<longrightarrow>
       0 \<le> status_cut_index (cstr line) \<and> status_cut_index (cstr line) < int len \<and>
       srf05_read_status fs len = Inr (butlast (cstr line))) \<and>
    (fgets len content = Some line \<and> cstr line = [] \<longrightarrow>
       status_cut_index (cstr line) = - 1 \<and>
       srf05_read_status fs len = Inl (OutOfBounds (- 1))) \<and>
    (fgets len content = None \<longrightarrow> srf05_read_status fs len = Inl Uninitialised)"
proof (intro conjI impI)
  assume a: "fgets len content = Some line \<and> cstr line \<noteq> []"
  then have "length (cstr line) \<le> len - 1"
    using length_cstr [of line] length_fgets [of len content line] by linarith
  moreover have "0 < length (cstr line)" using a by simp
  ultimately have idx: "0 \<le> status_cut_index (cstr line)" "status_cut_index (cstr line) < int len"
    by (simp_all add: status_cut_index_def)
  then show "0 \<le> status_cut_index (cstr line)" "status_cut_index (cstr line) < int len" .
  have "nat (int (length (cstr line)) - 1) = length (cstr line) - 1" by linarith
  then have "take (nat (status_cut_index (cstr line))) (cstr line) = butlast (cstr line)"
    by (simp add: status_cut_index_def butlast_conv_take)
  then show "srf05_read_status fs len = Inr (butlast (cstr line))"
    using assms a idx by (simp add: srf05_read_status_def Let_def)
next
  assume a: "fgets len content = Some line \<and> cstr line = []"
  then show "status_cut_index (cstr line) = - 1" by (simp add: status_cut_index_def)
  show "srf05_read_status fs len = Inl (OutOfBounds (- 1))"
    using assms a by (simp add: srf05_read_status_def Let_def status_cut_index_def)
next
  assume "fgets len content = None"
  then show "srf05_read_status fs len = Inl Uninitialised"
    using assms by (simp add: srf05_read_status_def)
qed

theorem read_status_write_index_witness:
  "(status_cut_index ''OPERATIONAL\<newline>'' = 11 \<and>
    srf05_read_status (published 32 450 \<lparr>distance = 900, status = 0\<rparr>) 32 = Inr ''OPERATIONAL'') \<and>
   srf05_read_status (\<lambda>path. Some [CHR 0x00, CHR ''\<newline>'']) 32 = Inl (OutOfBounds (- 1)) \<and>
   srf05_read_status (\<lambda>path. Some []) 32 = Inl Uninitialised"
proof (intro conjI)
  note a = read_status_write_index [where fs = "published 32 450 \<lparr>distance = 900, status = 0\<rparr>"
      and content = "''OPERATIONAL\<newline>''" and len = 32 and line = "''OPERATIONAL\<newline>''"]
  show "status_cut_index ''OPERATIONAL\<newline>'' = 11"
    by (simp add: status_cut_index_def)
  show "srf05_read_status (published 32 450 \<lparr>distance = 900, status = 0\<rparr>) 32 = Inr ''OPERATIONAL''"
    using a by (simp add: published_def STATUS_FILE_def DATA_FILE_PREFIX_def sysfs_status_show_def
        fgets_def cstr_def)
next
  note b = read_status_write_index [where fs = "\<lambda>path. Some [CHR 0x00, CHR ''\<newline>'']"
      and content = "[CHR 0x00, CHR ''\<newline>'']" and len = 32 and line = "[CHR 0x00, CHR ''\<newline>'']"]
  show "srf05_read_status (\<lambda>path. Some [CHR 0x00, CHR ''\<newline>'']) 32 = Inl (OutOfBounds (- 1))"
    using b by (simp add: fgets_def cstr_def)
next
  note c = read_status_write_index [where fs = "\<lambda>path. Some []" and content = "[]" and len = 32]
  show "srf05_read_status (\<lambda>path. Some []) 32 = Inl Uninitialised"
    using c by (simp add: fgets_def)
qed

section \<open>The history file\<close>

lemma length_fmt_0d:
  assumes "0 \<le> i" and "i < 10 ^ w" and "0 < w"
  shows "length (fmt_0d w i) = w"
proof -
  have "nat i < 10 ^ w" using assms(1,2) by (simp add: nat_less_iff)
  then have "length (dec (nat i)) \<le> w" using assms(3) by (rule length_dec)
  then show ?thesis using assms(1) by (simp add: fmt_0d_def Let_def)
qed

lemma history_file_name_date:
  assumes "0 \<le> tm_year lt + 1900" "tm_year lt + 1900 \<le> 9999"
    and "0 \<le> tm_mon lt" "tm_mon lt \<le> 11" and "1 \<le> tm_mday lt" "tm_mday lt \<le> 31"
  shows "length (fmt_0d 4 (tm_year lt + 1900)) = 4"
    and "length (fmt_0d 2 (tm_mon lt + 1)) = 2"
    and "length (fmt_0d 2 (tm_mday lt)) = 2"
    and "history_file_name lt =
      HISTORY_FILE_PATH @ ''/'' @ fmt_0d 4 (tm_year lt + 1900) @ ''-'' @
      fmt_0d 2 (tm_mon lt + 1) @ ''-'' @ fmt_0d 2 (tm_mday lt) @ ''.csv''"
proof -
  show y: "length (fmt_0d 4 (tm_year lt + 1900)) = 4" using assms by (intro length_fmt_0d) auto
  show m: "length (fmt_0d 2 (tm_mon lt + 1)) = 2" using assms by (intro length_fmt_0d) auto
  show d: "length (fmt_0d 2 (tm_mday lt)) = 2" using assms by (intro length_fmt_0d) auto
  show "history_file_name lt =
      HISTORY_FILE_PATH @ ''/'' @ fmt_0d 4 (tm_year lt + 1900) @ ''-'' @
      fmt_0d 2 (tm_mon lt + 1) @ ''-'' @ fmt_0d 2 (tm_mday lt) @ ''.csv''"
    using y m d by (simp add: history_file_name_def HISTORY_FILE_PATH_def)
qed

lemma fmt_d_no_newline: "CHR ''\<newline>'' \<notin> set (fmt_d i)"
  using dec_no_newline [of "nat \<bar>i\<bar>"] by (simp add: fmt_d_def)

lemma fmt_0d_no_newline: "CHR ''\<newline>'' \<notin> set (fmt_0d w i)"
  using dec_no_newline [of "nat \<bar>i\<bar>"] by (simp add: fmt_0d_def Let_def)

lemma csv_line_one_line:
  "last (csv_line lt e) = CHR ''\<newline>'' \<and> CHR ''\<newline>'' \<notin> set (butlast (csv_line lt e))"
proof -
  define body where "body =
     ''\"'' @ fmt_0d 4 (tm_year lt + 1900) @ ''-'' @ fmt_0d 2 (tm_mon lt + 1) @ ''-'' @
       fmt_0d 2 (tm_mday lt) @ ''\",\"'' @
     fmt_0d 2 (tm_hour lt) @ '':'' @ fmt_0d 2 (tm_min lt) @ '':'' @ fmt_0d 2 (tm_sec lt) @
     ''\",\"'' @ stat_label (stat e) @ ''\",'' @ fmt_d (dcm e) @ '','' @ fmt_d (draw e)"
  have line: "csv_line lt e = body @ ''\<newline>''" by (simp add: csv_line_def body_def)
  have "CHR ''\<newline>'' \<notin> set body"
    by (simp add: body_def fmt_0d_no_newline fmt_d_no_newline stat_label_def)
  then show ?thesis unfolding line by (simp add: butlast_append)
qed

lemma dump_history_open:
  assumes "0 \<le> curr h" and "curr h < int (length (entries h))"
    and "fopen_append (disk w) (history_file_name (localtime pf (ts (entries h ! nat (curr h))))) =
      Some old"
  shows "dump_history pf h w =
    (None, w\<lparr>disk := (disk w)
       (history_file_name (localtime pf (ts (entries h ! nat (curr h)))) :=
          Present (old @ csv_line (localtime pf (ts (entries h ! nat (curr h))))
            (entries h ! nat (curr h))))\<rparr>)"
  using assms by (simp add: dump_history_def Let_def)

lemma same_date_same_file:
  "tm_year ltb = tm_year lt \<Longrightarrow> tm_mon ltb = tm_mon lt \<Longrightarrow> tm_mday ltb = tm_mday lt \<Longrightarrow>
   history_file_name ltb = history_file_name lt"
  by (simp add: history_file_name_def)

text \<open>
  Claim C7, as amended. A call of \<^verbatim>\<open>dump_history\<close> for the newest entry of the history,
  whose file can be opened, appends exactly one line,
  \<^verbatim>\<open>"YYYY-MM-DD","HH:MM:SS","<STATUS>",<distance_cm>,<distance_raw>\<close>, to the file that is
  named after the local date of that entry, \<^verbatim>\<open>YYYY-MM-DD.csv\<close> for the years 0 to 9999;
  the file is created when it does not exist, what it held stays in front of the new line, and
  no other file changes. A second call for an entry of the same date appends its line to the
  same file, after the first.
\<close>

theorem persist_appends_line:
  assumes "0 \<le> curr h" and "curr h < int (length (entries h))"
    and "e = entries h ! nat (curr h)" and "lt = localtime pf (ts e)"
    and "name = history_file_name lt"
    and "fopen_append (disk w) name = Some old"
    and "0 \<le> curr hb" and "curr hb < int (length (entries hb))"
    and "eb = entries hb ! nat (curr hb)" and "ltb = localtime pf (ts eb)"
    and "tm_year ltb = tm_year lt" and "tm_mon ltb = tm_mon lt" and "tm_mday ltb = tm_mday lt"
  shows "(0 \<le> tm_year lt + 1900 \<and> tm_year lt + 1900 \<le> 9999 \<and> 0 \<le> tm_mon lt \<and> tm_mon lt \<le> 11 \<and>
      1 \<le> tm_mday lt \<and> tm_mday lt \<le> 31 \<longrightarrow>
        name = HISTORY_FILE_PATH @ ''/'' @ fmt_0d 4 (tm_year lt + 1900) @ ''-'' @
          fmt_0d 2 (tm_mon lt + 1) @ ''-'' @ fmt_0d 2 (tm_mday lt) @ ''.csv'' \<and>
        length (fmt_0d 4 (tm_year lt + 1900)) = 4 \<and> length (fmt_0d 2 (tm_mon lt + 1)) = 2 \<and>
        length (fmt_0d 2 (tm_mday lt)) = 2) \<and>
    last (csv_line lt e) = CHR ''\<newline>'' \<and> CHR ''\<newline>'' \<notin> set (butlast (csv_line lt e)) \<and>
    dump_history pf h w = (None, w\<lparr>disk := (disk w)(name := Present (old @ csv_line lt e))\<rparr>) \<and>
    dump_history pf hb (w\<lparr>disk := (disk w)(name := Present (old @ csv_line lt e))\<rparr>) =
      (None, w\<lparr>disk := (disk w)(name := Present (old @ csv_line lt e @ csv_line ltb eb))\<rparr>)"
proof -
  have form: "0 \<le> tm_year lt + 1900 \<and> tm_year lt + 1900 \<le> 9999 \<and> 0 \<le> tm_mon lt \<and> tm_mon lt \<le> 11 \<and>
      1 \<le> tm_mday lt \<and> tm_mday lt \<le> 31 \<longrightarrow>
        name = HISTORY_FILE_PATH @ ''/'' @ fmt_0d 4 (tm_year lt + 1900) @ ''-'' @
          fmt_0d 2 (tm_mon lt + 1) @ ''-'' @ fmt_0d 2 (tm_mday lt) @ ''.csv'' \<and>
        length (fmt_0d 4 (tm_year lt + 1900)) = 4 \<and> length (fmt_0d 2 (tm_mon lt + 1)) = 2 \<and>
        length (fmt_0d 2 (tm_mday lt)) = 2"
    using history_file_name_date [of lt] by (simp add: assms(5))
  have n2: "history_file_name ltb = name"
    using same_date_same_file [OF assms(11-13)] by (simp add: assms(5))
  have first: "dump_history pf h w =
      (None, w\<lparr>disk := (disk w)(name := Present (old @ csv_line lt e))\<rparr>)"
    using dump_history_open [OF assms(1,2), of w pf old] assms(6)
    by (simp add: assms(3,4,5) [symmetric])
  let ?w1 = "w\<lparr>disk := (disk w)(name := Present (old @ csv_line lt e))\<rparr>"
  have "fopen_append (disk ?w1) (history_file_name (localtime pf (ts (entries hb ! nat (curr hb))))) =
      Some (old @ csv_line lt e)"
    using n2 by (simp add: fopen_append_def assms(9,10) [symmetric])
  from dump_history_open [OF assms(7,8) this]
  have second: "dump_history pf hb ?w1 =
      (None, w\<lparr>disk := (disk w)(name := Present (old @ csv_line lt e @ csv_line ltb eb))\<rparr>)"
    using n2 by (simp add: assms(9,10) [symmetric])
  show ?thesis using form first second csv_line_one_line [of lt e] by blast
qed

lemmas demo_defs = demo_history_def demo_history2_def history_def history_init_def MAX_HISTORY_def
  demo_platform_def utc_2012_12_01_def empty_disk_def no_disk_def

lemmas fmt_defs = fmt_0d_def fmt_d_def dec_big digit_char_def Let_def

lemma demo_history_eval:
  "curr demo_history = 0" "length (entries demo_history) = 48"
  "entries demo_history ! 0 = \<lparr>ts = 1354323845, dcm = 2, draw = 900, stat = 1\<rparr>"
  "curr demo_history2 = 1" "length (entries demo_history2) = 48"
  "entries demo_history2 ! 1 = \<lparr>ts = 1354327445, dcm = 0, draw = 40, stat = 0\<rparr>"
  by (simp_all add: demo_defs)

lemma demo_file_name:
  "history_file_name (utc_2012_12_01 1354323845) = ''/opt/app/html/history/2012-12-01.csv''"
  "history_file_name (utc_2012_12_01 1354327445) = ''/opt/app/html/history/2012-12-01.csv''"
  by code_simp+

lemma demo_csv_lines:
  "csv_line (utc_2012_12_01 1354323845) \<lparr>ts = 1354323845, dcm = 2, draw = 900, stat = 1\<rparr> =
     ''\"2012-12-01\",\"01:04:05\",\"OPERATIONAL\",2,900\<newline>''"
  "csv_line (utc_2012_12_01 1354327445) \<lparr>ts = 1354327445, dcm = 0, draw = 40, stat = 0\<rparr> =
     ''\"2012-12-01\",\"02:04:05\",\"ERROR\",0,40\<newline>''"
  by code_simp+

theorem persist_appends_line_witness:
  "dump_history demo_platform demo_history empty_disk =
     (None, empty_disk\<lparr>disk := (disk empty_disk)(''/opt/app/html/history/2012-12-01.csv'' :=
        Present ''\"2012-12-01\",\"01:04:05\",\"OPERATIONAL\",2,900\<newline>'')\<rparr>) \<and>
   dump_history demo_platform demo_history2
     (empty_disk\<lparr>disk := (disk empty_disk)(''/opt/app/html/history/2012-12-01.csv'' :=
        Present ''\"2012-12-01\",\"01:04:05\",\"OPERATIONAL\",2,900\<newline>'')\<rparr>) =
     (None, empty_disk\<lparr>disk := (disk empty_disk)(''/opt/app/html/history/2012-12-01.csv'' :=
        Present (''\"2012-12-01\",\"01:04:05\",\"OPERATIONAL\",2,900\<newline>'' @
                 ''\"2012-12-01\",\"02:04:05\",\"ERROR\",0,40\<newline>''))\<rparr>)"
proof -
  let ?e = "\<lparr>ts = 1354323845, dcm = 2, draw = 900, stat = 1\<rparr> :: history_entry"
  let ?eb = "\<lparr>ts = 1354327445, dcm = 0, draw = 40, stat = 0\<rparr> :: history_entry"
  let ?lt = "utc_2012_12_01 1354323845"
  let ?ltb = "utc_2012_12_01 1354327445"
  have b: "0 \<le> curr demo_history" "curr demo_history < int (length (entries demo_history))"
    "0 \<le> curr demo_history2" "curr demo_history2 < int (length (entries demo_history2))"
    by (simp_all add: demo_history_eval)
  have e: "?e = entries demo_history ! nat (curr demo_history)"
    "?eb = entries demo_history2 ! nat (curr demo_history2)"
    by (simp_all add: demo_defs)
  have lt: "?lt = localtime demo_platform (ts ?e)" "?ltb = localtime demo_platform (ts ?eb)"
    by (simp_all add: demo_platform_def)
  have date: "tm_year ?ltb = tm_year ?lt" "tm_mon ?ltb = tm_mon ?lt" "tm_mday ?ltb = tm_mday ?lt"
    by (simp_all add: utc_2012_12_01_def)
  have name: "''/opt/app/html/history/2012-12-01.csv'' = history_file_name ?lt"
    by (simp add: demo_file_name)
  have opened: "fopen_append (disk empty_disk) ''/opt/app/html/history/2012-12-01.csv'' = Some []"
    by (simp add: fopen_append_def empty_disk_def)
  from persist_appends_line [OF b(1,2) e(1) lt(1) name opened b(3,4) e(2) lt(2) date]
  show ?thesis unfolding demo_csv_lines by simp
qed

lemma far_eval:
  "history_file_name (utc_10000_01_01 253402300800) = ''/opt/app/html/history/10000-01-01.csv''"
  "csv_line (utc_10000_01_01 253402300800) \<lparr>ts = 253402300800, dcm = 2, draw = 900, stat = 1\<rparr> =
     ''\"10000-01-01\",\"00:00:00\",\"OPERATIONAL\",2,900\<newline>''"
  by (simp_all add: history_file_name_def csv_line_def utc_10000_01_01_def HISTORY_FILE_PATH_def
      stat_label_def fmt_defs)

text \<open>
  Claim C7 as stated, for every persist call, fails in two ways. On a disk where the file of
  the day cannot be opened, the call appends no line: the disk is unchanged. And an entry of
  1 January 10000 goes to the file \<^verbatim>\<open>10000-01-01.csv\<close>, whose name has five digits for the
  year.
\<close>

theorem persist_no_line_counterexample:
  "history_file_name (localtime demo_platform (ts (entries demo_history ! nat (curr demo_history)))) =
     ''/opt/app/html/history/2012-12-01.csv'' \<and>
   fopen_append (disk no_disk) ''/opt/app/html/history/2012-12-01.csv'' = None \<and>
   fst (dump_history demo_platform demo_history no_disk) = Some NullStream \<and>
   disk (snd (dump_history demo_platform demo_history no_disk)) = disk no_disk \<and>
   dump_history far_platform far_history empty_disk =
     (None, empty_disk\<lparr>disk := (disk empty_disk)(''/opt/app/html/history/10000-01-01.csv'' :=
        Present ''\"10000-01-01\",\"00:00:00\",\"OPERATIONAL\",2,900\<newline>'')\<rparr>)"
proof (intro conjI)
  have name: "history_file_name (localtime demo_platform (ts (entries demo_history ! nat (curr demo_history)))) =
     ''/opt/app/html/history/2012-12-01.csv''"
    by (simp add: demo_history_eval demo_platform_def demo_file_name)
  then show "history_file_name (localtime demo_platform (ts (entries demo_history ! nat (curr demo_history)))) =
     ''/opt/app/html/history/2012-12-01.csv''" .
  show closed: "fopen_append (disk no_disk) ''/opt/app/html/history/2012-12-01.csv'' = None"
    by (simp add: fopen_append_def no_disk_def)
  have run: "dump_history demo_platform demo_history no_disk =
      (Some NullStream, no_disk\<lparr>stdout := stdout no_disk @ ''ERROR: unable to open history file '' @
         ''/opt/app/html/history/2012-12-01.csv'' @ ''\<newline>''\<rparr>)"
    using name closed by (simp add: dump_history_def demo_history_eval Let_def)
  show "fst (dump_history demo_platform demo_history no_disk) = Some NullStream"
    and "disk (snd (dump_history demo_platform demo_history no_disk)) = disk no_disk"
    by (simp_all add: run)
  have far: "curr far_history = 0" "length (entries far_history) = 48"
    "entries far_history ! 0 = \<lparr>ts = 253402300800, dcm = 2, draw = 900, stat = 1\<rparr>"
    by (simp_all add: far_history_def history_def history_init_def MAX_HISTORY_def)
  show "dump_history far_platform far_history empty_disk =
     (None, empty_disk\<lparr>disk := (disk empty_disk)(''/opt/app/html/history/10000-01-01.csv'' :=
        Present ''\"10000-01-01\",\"00:00:00\",\"OPERATIONAL\",2,900\<newline>'')\<rparr>)"
    by (simp add: dump_history_def far far_platform_def far_eval fopen_append_def empty_disk_def)
qed

text \<open>
  Claim C3 fails on the code. After the first firing of the main loop, on a disk where the
  history file cannot be opened, \<^verbatim>\<open>dump_history\<close> prints the message and then hands the
  \<^verbatim>\<open>NULL\<close> stream to \<^verbatim>\<open>fprintf\<close>: it does not return.
\<close>

theorem dump_history_unopenable:
  "add_history demo_platform (demo_tick 1354323845 900) history = Inr demo_history \<and>
   dump_history demo_platform demo_history no_disk =
     (Some NullStream,
      no_disk\<lparr>stdout :=
        ''ERROR: unable to open history file /opt/app/html/history/2012-12-01.csv\<newline>''\<rparr>)"
proof
  have "read_entry demo_platform (demo_tick 1354323845 900) =
      Inr \<lparr>ts = 1354323845, dcm = int 900 div 450, draw = int 900, stat = 1\<rparr>"
    by (rule read_entry_demo) simp
  then show "add_history demo_platform (demo_tick 1354323845 900) history = Inr demo_history"
    by (simp add: add_history_def demo_history_def history_def history_init_def MAX_HISTORY_def)
  show "dump_history demo_platform demo_history no_disk =
     (Some NullStream,
      no_disk\<lparr>stdout :=
        ''ERROR: unable to open history file /opt/app/html/history/2012-12-01.csv\<newline>''\<rparr>)"
    by (simp add: dump_history_def demo_history_eval demo_platform_def demo_file_name
        fopen_append_def no_disk_def)
qed

section \<open>The status of a history entry\<close>














end
